theory Spec2Isabelle
  imports Complex_Main "HOL-Library.Word"
begin

section \<open>JavaScript numbers\<close>

text \<open>
  The metrics of \<^verbatim>\<open>frameQuality.ts\<close> are JavaScript numbers. A number is modelled as an
  exact real or \<open>NaN\<close>; rounding of IEEE doubles is not modelled. \<open>NaN\<close> is kept because the
  code can produce it (a read past the end of a typed array is \<^verbatim>\<open>undefined\<close>, and \<^verbatim>\<open>0 / 0\<close>
  is \<open>NaN\<close>), every arithmetic operation propagates it and every comparison with it is false.
\<close>

datatype jsnum = Num real | NaN

datatype js_error = TypeError | IndexSizeError | SyntaxError

fun js_add :: "jsnum \<Rightarrow> jsnum \<Rightarrow> jsnum" where
  "js_add (Num a) (Num b) = Num (a + b)"
| "js_add _ _ = NaN"

fun js_sub :: "jsnum \<Rightarrow> jsnum \<Rightarrow> jsnum" where
  "js_sub (Num a) (Num b) = Num (a - b)"
| "js_sub _ _ = NaN"

fun js_mul :: "jsnum \<Rightarrow> jsnum \<Rightarrow> jsnum" where
  "js_mul (Num a) (Num b) = Num (a * b)"
| "js_mul _ _ = NaN"

text \<open>
  Division: \<^verbatim>\<open>0 / 0\<close> is \<open>NaN\<close>. A non-zero number divided by zero would be an infinity,
  which this type does not have; in this module a divisor is zero only when no loop
  iteration ran, and then the dividend is zero as well (lemmas \<open>sharpness_rows_zero\<close>,
  \<open>brightness_loop_zero\<close> and \<open>stability_loop_zero\<close> below), so the case does not arise.
\<close>

fun js_div :: "jsnum \<Rightarrow> jsnum \<Rightarrow> jsnum" where
  "js_div (Num a) (Num b) = (if b = 0 then NaN else Num (a / b))"
| "js_div _ _ = NaN"

fun js_abs :: "jsnum \<Rightarrow> jsnum" where
  "js_abs (Num a) = Num \<bar>a\<bar>"
| "js_abs NaN = NaN"

fun js_sqrt :: "jsnum \<Rightarrow> jsnum" where
  "js_sqrt (Num a) = (if a < 0 then NaN else Num (sqrt a))"
| "js_sqrt NaN = NaN"

text \<open>\<^verbatim>\<open>Math.round\<close> rounds to the nearest integer, a half towards plus infinity.\<close>

fun js_round :: "jsnum \<Rightarrow> jsnum" where
  "js_round (Num a) = Num (of_int \<lfloor>a + 1 / 2\<rfloor>)"
| "js_round NaN = NaN"

fun js_max :: "jsnum \<Rightarrow> jsnum \<Rightarrow> jsnum" where
  "js_max (Num a) (Num b) = Num (max a b)"
| "js_max _ _ = NaN"

fun js_min :: "jsnum \<Rightarrow> jsnum \<Rightarrow> jsnum" where
  "js_min (Num a) (Num b) = Num (min a b)"
| "js_min _ _ = NaN"

fun js_lt :: "jsnum \<Rightarrow> jsnum \<Rightarrow> bool" where
  "js_lt (Num a) (Num b) = (a < b)"
| "js_lt _ _ = False"

fun js_gt :: "jsnum \<Rightarrow> jsnum \<Rightarrow> bool" where
  "js_gt (Num a) (Num b) = (a > b)"
| "js_gt _ _ = False"

fun js_ge :: "jsnum \<Rightarrow> jsnum \<Rightarrow> bool" where
  "js_ge (Num a) (Num b) = (a \<ge> b)"
| "js_ge _ _ = False"

section \<open>Frame quality (\<^verbatim>\<open>frameQuality.ts\<close>)\<close>

record FrameMetrics =
  brightness :: jsnum
  contrast :: jsnum
  sharpness :: jsnum
  stability :: jsnum
  score :: jsnum

text \<open>
  An \<^verbatim>\<open>ImageData\<close>: \<open>data\<close> is the \<^verbatim>\<open>Uint8ClampedArray\<close> of RGBA bytes. The browser
  only builds objects with positive \<open>width\<close> and \<open>height\<close> and
  \<open>length data = 4 * width * height\<close>.
\<close>

record ImageData =
  data :: "8 word list"
  width :: nat
  height :: nat

definition valid_image :: "ImageData \<Rightarrow> bool" where
  "valid_image img \<longleftrightarrow>
     0 < width img \<and> 0 < height img \<and> length (data img) = 4 * width img * height img"

text \<open>Reading \<^verbatim>\<open>data[i]\<close>: past the end the value is \<^verbatim>\<open>undefined\<close>, a \<open>NaN\<close> in arithmetic.\<close>

definition rd :: "8 word list \<Rightarrow> nat \<Rightarrow> jsnum" where
  "rd d i = (if i < length d then Num (real (unat (d ! i))) else NaN)"

subsection \<open>estimateSharpness\<close>

function sharpness_cols :: "ImageData \<Rightarrow> nat \<Rightarrow> nat \<Rightarrow> jsnum \<times> nat \<Rightarrow> jsnum \<times> nat" where
  "sharpness_cols img i j (totalGradient, count) =
     (if int j < int (width img) - 4 then
        let idx = (i * width img + j) * 4;
            idxRight = (i * width img + j + 1) * 4;
            idxDown = ((i + 1) * width img + j) * 4;
            gradX = js_abs (js_sub (rd (data img) idx) (rd (data img) idxRight));
            gradY = js_abs (js_sub (rd (data img) idx) (rd (data img) idxDown))
        in sharpness_cols img i (j + 4)
             (js_add totalGradient (js_sqrt (js_add (js_mul gradX gradX) (js_mul gradY gradY))),
              count + 1)
      else (totalGradient, count))"
  by pat_completeness auto
termination
  by (relation "measure (\<lambda>(img, i, j, acc). width img - j)") auto

function sharpness_rows :: "ImageData \<Rightarrow> nat \<Rightarrow> jsnum \<times> nat \<Rightarrow> jsnum \<times> nat" where
  "sharpness_rows img i acc =
     (if int i < int (height img) - 4
      then sharpness_rows img (i + 4) (sharpness_cols img i 0 acc)
      else acc)"
  by pat_completeness auto
termination
  by (relation "measure (\<lambda>(img, i, acc). height img - i)") auto

definition estimateSharpness :: "ImageData \<Rightarrow> jsnum" where
  "estimateSharpness imageData =
     (case sharpness_rows imageData 0 (Num 0, 0) of
        (totalGradient, count) \<Rightarrow>
          js_min (Num 255) (js_mul (js_div totalGradient (Num (real count))) (Num 2)))"

subsection \<open>estimateBrightness\<close>

text \<open>The luminosity formula \<^verbatim>\<open>0.299 * r + 0.587 * g + 0.114 * b\<close> at byte offset \<open>i\<close>.\<close>

definition luminosity :: "8 word list \<Rightarrow> nat \<Rightarrow> jsnum" where
  "luminosity d i =
     js_add (js_add (js_mul (Num (299 / 1000)) (rd d i)) (js_mul (Num (587 / 1000)) (rd d (i + 1))))
            (js_mul (Num (114 / 1000)) (rd d (i + 2)))"

function brightness_loop :: "8 word list \<Rightarrow> nat \<Rightarrow> jsnum \<Rightarrow> jsnum" where
  "brightness_loop d i lumSum =
     (if i < length d then brightness_loop d (i + 16) (js_add lumSum (luminosity d i)) else lumSum)"
  by pat_completeness auto
termination
  by (relation "measure (\<lambda>(d, i, lumSum). length d - i)") auto

definition estimateBrightness :: "ImageData \<Rightarrow> jsnum" where
  "estimateBrightness imageData =
     js_div (brightness_loop (data imageData) 0 (Num 0))
            (Num (real (length (data imageData)) / 16))"

subsection \<open>estimateContrast\<close>

function contrast_loop :: "8 word list \<Rightarrow> nat \<Rightarrow> jsnum list \<Rightarrow> jsnum list" where
  "contrast_loop d i pixels =
     (if i < length d then contrast_loop d (i + 16) (pixels @ [luminosity d i]) else pixels)"
  by pat_completeness auto
termination
  by (relation "measure (\<lambda>(d, i, pixels). length d - i)") auto

text \<open>
  \<^verbatim>\<open>pixels.reduce((a, b) => a + b)\<close> has no initial value: on an empty array it throws a
  \<^verbatim>\<open>TypeError\<close>, otherwise it folds from the first element.
\<close>

definition estimateContrast :: "ImageData \<Rightarrow> js_error + jsnum" where
  "estimateContrast imageData =
     (let pixels = contrast_loop (data imageData) 0 [] in
      case pixels of
        [] \<Rightarrow> Inl TypeError
      | p # ps \<Rightarrow>
          let mean = js_div (foldl js_add p ps) (Num (real (length pixels)));
              variance =
                js_div (foldl (\<lambda>acc p. js_add acc (js_mul (js_sub p mean) (js_sub p mean)))
                          (Num 0) pixels)
                       (Num (real (length pixels)))
          in Inr (js_sqrt variance))"

subsection \<open>estimateStability\<close>

function stability_loop :: "8 word list \<Rightarrow> 8 word list \<Rightarrow> nat \<Rightarrow> jsnum \<times> nat \<Rightarrow> jsnum \<times> nat" where
  "stability_loop prev cur i (totalDiff, count) =
     (if i < length prev
      then stability_loop prev cur (i + 16)
             (js_add totalDiff (js_abs (js_sub (rd prev i) (rd cur i))), count + 1)
      else (totalDiff, count))"
  by pat_completeness auto
termination
  by (relation "measure (\<lambda>(prev, cur, i, acc). length prev - i)") auto

definition estimateStability :: "ImageData option \<Rightarrow> ImageData \<Rightarrow> jsnum" where
  "estimateStability prevImageData currImageData =
     (case prevImageData of
        None \<Rightarrow> Num 100
      | Some prevImage \<Rightarrow>
          (case stability_loop (data prevImage) (data currImageData) 0 (Num 0, 0) of
             (totalDiff, count) \<Rightarrow>
               let avgDiff = js_div totalDiff (Num (real count))
               in js_max (Num 0)
                    (js_sub (Num 100) (js_mul (js_div avgDiff (Num 30)) (Num 100)))))"

subsection \<open>assessFrameQuality\<close>

text \<open>
  The scoring block of \<^verbatim>\<open>assessFrameQuality\<close>: \<^verbatim>\<open>let score = 100\<close> followed by the four
  \<^verbatim>\<open>if / else if\<close> statements, each of which subtracts from \<open>score\<close>.
\<close>

definition qualityScore :: "jsnum \<Rightarrow> jsnum \<Rightarrow> jsnum \<Rightarrow> jsnum \<Rightarrow> int" where
  "qualityScore brightness' contrast' sharpness' stability' =
     (let score = 100;
          score = (if js_lt brightness' (Num 30) \<or> js_gt brightness' (Num 240) then score - 30
                   else if js_lt brightness' (Num 50) \<or> js_gt brightness' (Num 200) then score - 15
                   else score);
          score = (if js_lt contrast' (Num 20) then score - 20
                   else if js_lt contrast' (Num 40) then score - 10
                   else score);
          score = (if js_lt sharpness' (Num 30) then score - 40
                   else if js_lt sharpness' (Num 60) then score - 20
                   else score);
          score = (if js_lt stability' (Num 50) then score - 20
                   else if js_lt stability' (Num 75) then score - 10
                   else score)
      in score)"

definition finalScore :: "int \<Rightarrow> jsnum" where
  "finalScore score' = js_max (Num 0) (js_round (Num (of_int score')))"

definition assessFrameQuality :: "ImageData \<Rightarrow> ImageData option \<Rightarrow> js_error + FrameMetrics" where
  "assessFrameQuality imageData prevImageData =
     (let brightness' = estimateBrightness imageData in
      case estimateContrast imageData of
        Inl e \<Rightarrow> Inl e
      | Inr contrast' \<Rightarrow>
          let sharpness' = estimateSharpness imageData;
              stability' = estimateStability prevImageData imageData;
              score' = qualityScore brightness' contrast' sharpness' stability'
          in Inr \<lparr> brightness = js_round brightness',
                   contrast = js_round contrast',
                   sharpness = js_round sharpness',
                   stability = js_round stability',
                   score = finalScore score' \<rparr>)"

definition isFrameGoodQuality :: "FrameMetrics \<Rightarrow> jsnum \<Rightarrow> bool" where
  "isFrameGoodQuality metrics threshold = js_ge (score metrics) threshold"

definition placeholderMetrics :: FrameMetrics where
  "placeholderMetrics =
     \<lparr> brightness = Num 0, contrast = Num 0, sharpness = Num 0, stability = Num 100,
       score = Num 50 \<rparr>"

declare sharpness_cols.simps [simp del] sharpness_rows.simps [simp del]
  brightness_loop.simps [simp del] contrast_loop.simps [simp del] stability_loop.simps [simp del]

subsection \<open>The scoring table, and the averages behind the stability map\<close>

definition brightnessPenalty :: "jsnum \<Rightarrow> int" where
  "brightnessPenalty b =
     (if js_lt b (Num 30) \<or> js_gt b (Num 240) then 30
      else if js_lt b (Num 50) \<or> js_gt b (Num 200) then 15 else 0)"

definition contrastPenalty :: "jsnum \<Rightarrow> int" where
  "contrastPenalty c = (if js_lt c (Num 20) then 20 else if js_lt c (Num 40) then 10 else 0)"

definition sharpnessPenalty :: "jsnum \<Rightarrow> int" where
  "sharpnessPenalty sh = (if js_lt sh (Num 30) then 40 else if js_lt sh (Num 60) then 20 else 0)"

definition stabilityPenalty :: "jsnum \<Rightarrow> int" where
  "stabilityPenalty st = (if js_lt st (Num 50) then 20 else if js_lt st (Num 75) then 10 else 0)"

text \<open>The byte offsets the sampling loops visit: \<open>i, i + 16, \<dots>\<close> below \<open>n\<close>.\<close>

function sample_offsets :: "nat \<Rightarrow> nat \<Rightarrow> nat list" where
  "sample_offsets n i = (if i < n then i # sample_offsets n (i + 16) else [])"
  by pat_completeness auto
termination
  by (relation "measure (\<lambda>(n, i). n - i)") auto

declare sample_offsets.simps [simp del]

primrec js_sum :: "jsnum list \<Rightarrow> jsnum" where
  "js_sum [] = Num 0"
| "js_sum (x # xs) = js_add x (js_sum xs)"

definition js_average :: "jsnum list \<Rightarrow> jsnum" where
  "js_average xs = js_div (js_sum xs) (Num (real (length xs)))"

text \<open>
  What the loop of \<^verbatim>\<open>estimateStability\<close> compares at a sampled offset: the bytes
  \<^verbatim>\<open>prev[i]\<close> and \<^verbatim>\<open>curr[i]\<close>, byte 0 (the red channel) of a sampled pixel.
\<close>

definition redDiff :: "8 word list \<Rightarrow> 8 word list \<Rightarrow> nat \<Rightarrow> jsnum" where
  "redDiff prev cur i = js_abs (js_sub (rd prev i) (rd cur i))"

text \<open>
  The local \<^verbatim>\<open>avgDiff\<close> of \<^verbatim>\<open>estimateStability\<close>, written as an average: the mean of the
  red-byte differences over the sampled offsets of the previous buffer.
\<close>

definition redAvgDiff :: "ImageData \<Rightarrow> ImageData \<Rightarrow> jsnum" where
  "redAvgDiff prevImage currImage =
     js_average (map (redDiff (data prevImage) (data currImage))
                     (sample_offsets (length (data prevImage)) 0))"

text \<open>
  The average the specification names: the mean absolute per-sample difference of the
  luminance \<open>0.299 R + 0.587 G + 0.114 B\<close> between the previous and the current buffer.
\<close>

definition luminanceDiff :: "8 word list \<Rightarrow> 8 word list \<Rightarrow> nat \<Rightarrow> jsnum" where
  "luminanceDiff prev cur i = js_abs (js_sub (luminosity prev i) (luminosity cur i))"

definition luminanceAvgDiff :: "ImageData \<Rightarrow> ImageData \<Rightarrow> jsnum" where
  "luminanceAvgDiff prevImage currImage =
     js_average (map (luminanceDiff (data prevImage) (data currImage))
                     (sample_offsets (length (data prevImage)) 0))"

text \<open>The linear map of an average difference onto a stability: \<open>max(0, 100 - (a / 30) * 100)\<close>.\<close>

definition stabilityOfAvg :: "jsnum \<Rightarrow> jsnum" where
  "stabilityOfAvg a = js_max (Num 0) (js_sub (Num 100) (js_mul (js_div a (Num 30)) (Num 100)))"

text \<open>The composite score a set of raw metrics leads to.\<close>

definition compositeScore :: "jsnum \<Rightarrow> jsnum \<Rightarrow> jsnum \<Rightarrow> jsnum \<Rightarrow> jsnum" where
  "compositeScore b c sh st = finalScore (qualityScore b c sh st)"

section \<open>The capture hook \<^verbatim>\<open>useVideoStream\<close>\<close>

text \<open>
  The state the hook keeps. \<open>tracks\<close> holds every \<^verbatim>\<open>MediaStreamTrack\<close> object the camera
  has handed out (\<open>True\<close> while live, \<open>False\<close> once stopped); \<open>streamRef\<close> is
  \<^verbatim>\<open>streamRef.current\<close>, the tracks of the held \<^verbatim>\<open>MediaStream\<close> as indices into
  \<open>tracks\<close>. \<open>emitted\<close> records the calls of \<^verbatim>\<open>options.onFrame\<close>, oldest first.
\<close>

record capture_hook =
  tracks :: "bool list"
  streamRef :: "nat list option"
  prevImageDataRef :: "ImageData option"
  isStreaming :: bool
  cameraError :: "string option"
  frameMetrics :: "FrameMetrics option"
  mounted :: bool
  emitted :: "(string \<times> FrameMetrics) list"

definition initialCapture :: capture_hook where
  "initialCapture =
     \<lparr> tracks = [], streamRef = None, prevImageDataRef = None, isStreaming = False,
       cameraError = None, frameMetrics = None, mounted = True, emitted = [] \<rparr>"

text \<open>
  \<^verbatim>\<open>startStream\<close>, once \<^verbatim>\<open>getUserMedia\<close> has settled: \<open>Inl message\<close> when it rejected,
  \<open>Inr n\<close> when it resolved with a stream of \<open>n\<close> fresh tracks. \<open>videoEl\<close> says whether
  \<^verbatim>\<open>videoRef.current\<close> is set at that moment.
\<close>

definition startStream :: "string + nat \<Rightarrow> bool \<Rightarrow> capture_hook \<Rightarrow> capture_hook" where
  "startStream outcome videoEl s =
     (case outcome of
        Inl message \<Rightarrow> s\<lparr> cameraError := Some message, isStreaming := False \<rparr>
      | Inr n \<Rightarrow>
          let ids = [length (tracks s) ..< length (tracks s) + n];
              s' = s\<lparr> tracks := tracks s @ replicate n True \<rparr>
          in if videoEl
             then s'\<lparr> streamRef := Some ids, isStreaming := True, cameraError := None \<rparr>
             else s')"

text \<open>\<^verbatim>\<open>stream.getTracks().forEach((track) => track.stop())\<close>\<close>

definition stopTracks :: "nat list \<Rightarrow> bool list \<Rightarrow> bool list" where
  "stopTracks ids ts = foldl (\<lambda>ts' i. ts'[i := False]) ts ids"

definition stopStream :: "capture_hook \<Rightarrow> capture_hook" where
  "stopStream s =
     (case streamRef s of
        Some ids \<Rightarrow>
          s\<lparr> tracks := stopTracks ids (tracks s), streamRef := None, isStreaming := False \<rparr>
      | None \<Rightarrow> s)"

text \<open>
  Unmounting the component runs the cleanup of the camera effect, which stops the tracks
  of a held stream. (The interval of the auto-capture effect is cleared by that effect's
  own cleanup, which React runs on unmount and when \<open>isStreaming\<close> changes; no function of
  the hook clears it, and it is not part of this state.)
\<close>

definition unmount :: "capture_hook \<Rightarrow> capture_hook" where
  "unmount s =
     (case streamRef s of
        Some ids \<Rightarrow> s\<lparr> tracks := stopTracks ids (tracks s), streamRef := None, mounted := False \<rparr>
      | None \<Rightarrow> s\<lparr> mounted := False \<rparr>)"

text \<open>
  What one tick finds: whether \<^verbatim>\<open>videoRef.current\<close>, \<^verbatim>\<open>canvasRef.current\<close> and the 2d
  context are there, the pixels of the drawn video frame, and its JPEG data URL.
\<close>

record tick_env =
  videoEl :: bool
  canvasEl :: bool
  ctx2d :: bool
  frame :: ImageData
  frameJpeg :: string

text \<open>\<^verbatim>\<open>ctx.getImageData(0, 0, w, h)\<close> throws an \<^verbatim>\<open>IndexSizeError\<close> when \<open>w\<close> or \<open>h\<close> is zero.\<close>

definition getImageData :: "tick_env \<Rightarrow> js_error + ImageData" where
  "getImageData env =
     (if width (frame env) = 0 \<or> height (frame env) = 0 then Inl IndexSizeError
      else Inr (frame env))"

definition captureFrame :: "tick_env \<Rightarrow> string option" where
  "captureFrame env =
     (if \<not> videoEl env \<or> \<not> canvasEl env then None
      else if \<not> ctx2d env then None
      else Some (frameJpeg env))"

definition captureFrameWithQuality ::
    "jsnum \<Rightarrow> tick_env \<Rightarrow> capture_hook
      \<Rightarrow> js_error + ((string \<times> FrameMetrics) option \<times> capture_hook)" where
  "captureFrameWithQuality minQuality env s =
     (if \<not> videoEl env \<or> \<not> canvasEl env then Inr (None, s)
      else if \<not> ctx2d env then Inr (None, s)
      else
        case getImageData env of
          Inl e \<Rightarrow> Inl e
        | Inr imageData \<Rightarrow>
            (case assessFrameQuality imageData (prevImageDataRef s) of
               Inl e \<Rightarrow> Inl e
             | Inr metrics \<Rightarrow>
                 let s' = s\<lparr> prevImageDataRef := Some imageData \<rparr>
                 in if isFrameGoodQuality metrics minQuality
                    then Inr (Some (frameJpeg env, metrics), s')
                    else Inr (None, s')))"

text \<open>
  The interval callback. An exception thrown inside it ends the callback; it is thrown
  before anything was written, so the state is the one before the tick.
\<close>

definition captureTick :: "jsnum \<Rightarrow> tick_env \<Rightarrow> capture_hook \<Rightarrow> capture_hook" where
  "captureTick minQuality env s =
     (case captureFrameWithQuality minQuality env s of
        Inl e \<Rightarrow> s
      | Inr (Some (frame', metrics), s') \<Rightarrow>
          s'\<lparr> frameMetrics := Some metrics, emitted := emitted s' @ [(frame', metrics)] \<rparr>
      | Inr (None, s') \<Rightarrow>
          (case captureFrame env of
             Some fallbackFrame \<Rightarrow>
               s'\<lparr> emitted := emitted s' @ [(fallbackFrame, placeholderMetrics)] \<rparr>
           | None \<Rightarrow> s'))"


text \<open>A frame can be captured: video, canvas and context are there and the frame is well formed.\<close>

definition frameAvailable :: "tick_env \<Rightarrow> bool" where
  "frameAvailable env \<longleftrightarrow> videoEl env \<and> canvasEl env \<and> ctx2d env \<and> valid_image (frame env)"

text \<open>The assessed quality of a frame fails the threshold.\<close>

definition belowThreshold :: "jsnum \<Rightarrow> ImageData \<Rightarrow> ImageData option \<Rightarrow> bool" where
  "belowThreshold minQuality imageData prevImageData =
     (case assessFrameQuality imageData prevImageData of
        Inl e \<Rightarrow> False
      | Inr metrics \<Rightarrow> \<not> isFrameGoodQuality metrics minQuality)"


text \<open>The tracks among \<open>ids\<close> that are still live.\<close>

definition liveTracks :: "nat list \<Rightarrow> bool list \<Rightarrow> nat list" where
  "liveTracks ids ts = filter (\<lambda>i. i < length ts \<and> ts ! i) ids"

text \<open>While the hook is mounted and streaming, it holds a stream.\<close>

definition capture_inv :: "capture_hook \<Rightarrow> bool" where
  "capture_inv s \<longleftrightarrow> (mounted s \<and> isStreaming s \<longrightarrow> streamRef s \<noteq> None)"

section \<open>The channel hook \<^verbatim>\<open>useVisionWebSocket\<close>\<close>

datatype ready_state = CONNECTING | OPEN | CLOSING | CLOSED

text \<open>
  The inner \<^verbatim>\<open>result\<close> object of a \<^verbatim>\<open>complete\<close> message, as far as the result view
  reads it.
\<close>

record DetectionResult =
  object_name :: string
  brand :: "string option"
  condition :: string
  issues :: "string list"
  confidence :: "jsnum option"

text \<open>
  A parsed inbound message. \<open>rtype\<close> is its \<^verbatim>\<open>type\<close> tag; the cast
  \<^verbatim>\<open>as VisionResult\<close> checks nothing, so any string can occur (a missing tag behaves
  like a string that matches no branch).
\<close>

record VisionResult =
  rtype :: string
  token :: "string option"
  partial :: "string option"
  result :: "DetectionResult option"
  msgConfidence :: "jsnum option"
  message :: "string option"

text \<open>
  The payload of a message event: text that \<^verbatim>\<open>JSON.parse\<close> rejects, the JSON value
  \<^verbatim>\<open>null\<close> (reading \<^verbatim>\<open>data.type\<close> then throws), or a value whose fields can be read.
\<close>

datatype event_data = Unparseable | JsonNull | JsonValue VisionResult

text \<open>An outbound JSON message: \<^verbatim>\<open>{type, data, session_id}\<close>, or \<^verbatim>\<open>{type: 'ping'}\<close>.\<close>

record payload =
  ptype :: string
  pdata :: "string option"
  session_id :: "string option"

datatype log_entry =
    LogConnected
  | LogWebSocketError
  | LogParseError js_error
  | LogSendingFrame int
  | LogNotOpen "ready_state option"

text \<open>
  A \<^verbatim>\<open>WebSocket\<close> object: its \<open>readyState\<close>, whether the four handlers of \<^verbatim>\<open>connect\<close>
  are attached to it, and what was sent through it.
\<close>

record websocket =
  readyState :: ready_state
  listeners :: bool
  outbox :: "payload list"

text \<open>
  The state of the hook. \<open>sockets\<close> holds every \<^verbatim>\<open>WebSocket\<close> object created so far,
  \<open>wsRef\<close> is \<^verbatim>\<open>wsRef.current\<close> as an index into it, \<open>delivered\<close> records the calls of
  \<^verbatim>\<open>options.onResult\<close> and \<open>console\<close> the console output.
\<close>

record ws_hook =
  sockets :: "websocket list"
  wsRef :: "nat option"
  isConnected :: bool
  currentResult :: "VisionResult option"
  isProcessing :: bool
  wsError :: "string option"
  delivered :: "VisionResult list"
  console :: "log_entry list"

definition initialChannel :: ws_hook where
  "initialChannel =
     \<lparr> sockets = [], wsRef = None, isConnected = False, currentResult = None,
       isProcessing = False, wsError = None, delivered = [], console = [] \<rparr>"

text \<open>
  \<^verbatim>\<open>connect\<close>: \<open>ctor\<close> is \<open>Some message\<close> when \<^verbatim>\<open>new WebSocket(url)\<close> throws, else \<open>None\<close>.
\<close>

definition connect :: "string option \<Rightarrow> ws_hook \<Rightarrow> ws_hook" where
  "connect ctor s =
     (case ctor of
        Some message' \<Rightarrow> s\<lparr> wsError := Some message' \<rparr>
      | None \<Rightarrow>
          let ws = \<lparr> readyState = CONNECTING, listeners = True, outbox = [] \<rparr>
          in s\<lparr> sockets := sockets s @ [ws], wsRef := Some (length (sockets s)) \<rparr>)"

definition refReadyState :: "ws_hook \<Rightarrow> ready_state option" where
  "refReadyState s =
     (case wsRef s of
        None \<Rightarrow> None
      | Some i \<Rightarrow> if i < length (sockets s) then Some (readyState (sockets s ! i)) else None)"

definition disconnect :: "ws_hook \<Rightarrow> ws_hook" where
  "disconnect s =
     (let socks =
        (case wsRef s of
           Some i \<Rightarrow>
             if refReadyState s = Some OPEN
             then (sockets s)[i := (sockets s ! i)\<lparr> readyState := CLOSING \<rparr>]
             else sockets s
         | None \<Rightarrow> sockets s)
      in s\<lparr> sockets := socks, wsRef := None, isConnected := False, isProcessing := False \<rparr>)"

text \<open>The \<^verbatim>\<open>onmessage\<close> handler that \<^verbatim>\<open>connect\<close> attaches.\<close>

definition onmessage :: "event_data \<Rightarrow> ws_hook \<Rightarrow> ws_hook" where
  "onmessage ev s =
     (case ev of
        Unparseable \<Rightarrow> s\<lparr> console := console s @ [LogParseError SyntaxError] \<rparr>
      | JsonNull \<Rightarrow> s\<lparr> console := console s @ [LogParseError TypeError] \<rparr>
      | JsonValue d \<Rightarrow>
          let s' =
            (if rtype d = ''processing_started'' then s\<lparr> isProcessing := True \<rparr>
             else if rtype d = ''token'' \<or> rtype d = ''partial''
               then s\<lparr> currentResult := Some d \<rparr>
             else if rtype d = ''complete''
               then s\<lparr> currentResult := Some d, isProcessing := False \<rparr>
             else if rtype d = ''error'' \<or> rtype d = ''dropped''
               then s\<lparr> currentResult := Some d, isProcessing := False \<rparr>
             else if rtype d = ''low_confidence'' \<or> rtype d = ''quality_warning''
               then s\<lparr> currentResult := Some d \<rparr>
             else s)
          in s'\<lparr> delivered := delivered s' @ [d] \<rparr>)"

text \<open>The events of the socket with index \<open>i\<close>, seen through the handlers attached to it.\<close>

definition socketOpened :: "nat \<Rightarrow> ws_hook \<Rightarrow> ws_hook" where
  "socketOpened i s =
     (if i < length (sockets s) \<and> readyState (sockets s ! i) = CONNECTING then
        let s' = s\<lparr> sockets := (sockets s)[i := (sockets s ! i)\<lparr> readyState := OPEN \<rparr>] \<rparr>
        in if listeners (sockets s ! i)
           then s'\<lparr> isConnected := True, wsError := None, console := console s @ [LogConnected] \<rparr>
           else s'
      else s)"

definition socketClosed :: "nat \<Rightarrow> ws_hook \<Rightarrow> ws_hook" where
  "socketClosed i s =
     (if i < length (sockets s) \<and> readyState (sockets s ! i) \<noteq> CLOSED then
        let s' = s\<lparr> sockets := (sockets s)[i := (sockets s ! i)\<lparr> readyState := CLOSED \<rparr>] \<rparr>
        in if listeners (sockets s ! i)
           then s'\<lparr> isConnected := False, isProcessing := False \<rparr>
           else s'
      else s)"

definition socketError :: "nat \<Rightarrow> ws_hook \<Rightarrow> ws_hook" where
  "socketError i s =
     (if i < length (sockets s) \<and> listeners (sockets s ! i)
      then s\<lparr> wsError := Some ''WebSocket error'', console := console s @ [LogWebSocketError] \<rparr>
      else s)"

definition socketMessage :: "nat \<Rightarrow> event_data \<Rightarrow> ws_hook \<Rightarrow> ws_hook" where
  "socketMessage i ev s =
     (if i < length (sockets s) \<and> readyState (sockets s ! i) = OPEN \<and> listeners (sockets s ! i)
      then onmessage ev s else s)"

subsection \<open>sendFrame\<close>








text \<open>The handles that still have their listeners attached and are not closed.\<close>

definition liveHandles :: "ws_hook \<Rightarrow> websocket list" where
  "liveHandles s = filter (\<lambda>ws. listeners ws \<and> readyState ws \<noteq> CLOSED) (sockets s)"

section \<open>The result view of \<^verbatim>\<open>LiveVideoAnalysis\<close>\<close>

text \<open>\<^verbatim>\<open>const confidence = detectionResult.confidence || 0\<close>: a missing value, \<open>NaN\<close> and 0 give 0.\<close>

definition confidenceOf :: "DetectionResult \<Rightarrow> real" where
  "confidenceOf detectionResult =
     (case confidence detectionResult of
        None \<Rightarrow> 0
      | Some NaN \<Rightarrow> 0
      | Some (Num c) \<Rightarrow> c)"

text \<open>The icon of the result header: \<^verbatim>\<open>confidence >= 70 ? 'check_circle' : 'info'\<close>.\<close>

definition successIndicator :: "real \<Rightarrow> string" where
  "successIndicator c = (if c \<ge> 70 then ''check_circle'' else ''info'')"

text \<open>The number shown before the percent sign: \<^verbatim>\<open>Math.round(confidence * 100)\<close>.\<close>

definition displayedPercent :: "real \<Rightarrow> jsnum" where
  "displayedPercent c = js_round (Num (c * 100))"

section \<open>Concrete inputs\<close>

text \<open>One-pixel frames, and the states and environments the examples below run on.\<close>

definition whitePixel :: ImageData where
  "whitePixel = \<lparr> data = [255, 255, 255, 255], width = 1, height = 1 \<rparr>"

definition blackPixel :: ImageData where
  "blackPixel = \<lparr> data = [0, 0, 0, 255], width = 1, height = 1 \<rparr>"

definition darkEnv :: tick_env where
  "darkEnv =
     \<lparr> videoEl = True, canvasEl = True, ctx2d = True, frame = blackPixel,
       frameJpeg = ''data:image/jpeg;base64,/9j/4AAQ'' \<rparr>"

text \<open>A session that was started with a two-track stream and has captured one frame.\<close>

definition streamingCapture :: capture_hook where
  "streamingCapture = captureTick (Num 70) darkEnv (startStream (Inr 2) True initialCapture)"

text \<open>A channel that was connected and has opened, and the same channel connected once more.\<close>

definition openChannel :: ws_hook where
  "openChannel = socketOpened 0 (connect None initialChannel)"

definition reconnectedChannel :: ws_hook where
  "reconnectedChannel = connect None openChannel"

definition completeMessage :: VisionResult where
  "completeMessage =
     \<lparr> rtype = ''complete'', token = None, partial = None,
       result = Some \<lparr> object_name = ''phone'', brand = None, condition = ''damaged'',
                       issues = [''cracked screen''], confidence = None \<rparr>,
       msgConfidence = Some (Num (82 / 100)), message = None \<rparr>"

text \<open>An open channel that was disconnected and connected again, as a retry does.\<close>

definition retryChannel :: ws_hook where
  "retryChannel = connect None (disconnect openChannel)"

text \<open>
  Two pixels with the same red byte and different green and blue bytes, and a row of five
  black pixels.
\<close>

definition darkRedPixel :: ImageData where
  "darkRedPixel = \<lparr> data = [10, 0, 0, 255], width = 1, height = 1 \<rparr>"

definition paleRedPixel :: ImageData where
  "paleRedPixel = \<lparr> data = [10, 255, 255, 255], width = 1, height = 1 \<rparr>"

definition fivePixelRow :: ImageData where
  "fivePixelRow =
     \<lparr> data = [0, 0, 0, 255, 0, 0, 0, 255, 0, 0, 0, 255, 0, 0, 0, 255, 0, 0, 0, 255],
       width = 5, height = 1 \<rparr>"

text \<open>
  A hook on which \<^verbatim>\<open>startStream\<close> resolved twice, each time with a one-track stream, and
  a hook on which it resolved with a two-track stream while no video element was mounted.
\<close>

definition restartedCapture :: capture_hook where
  "restartedCapture = startStream (Inr 1) True (startStream (Inr 1) True initialCapture)"

definition lateCapture :: capture_hook where
  "lateCapture = startStream (Inr 2) False initialCapture"

section \<open>Arithmetic of JavaScript numbers\<close>

lemma js_add_assoc: "js_add (js_add a b) c = js_add a (js_add b c)"
  by (cases a; cases b; cases c) simp_all

lemma js_add_zero_right: "js_add a (Num 0) = a"
  by (cases a) simp_all

lemma js_add_zero_left: "js_add (Num 0) a = a"
  by (cases a) simp_all

lemma js_round_int: "js_round (Num (of_int n)) = Num (of_int n)"
  by simp

section \<open>The composite score\<close>

lemma qualityScore_penalties:
  "qualityScore b c sh st =
     100 - brightnessPenalty b - contrastPenalty c - sharpnessPenalty sh - stabilityPenalty st"
  by (simp add: qualityScore_def Let_def brightnessPenalty_def contrastPenalty_def
      sharpnessPenalty_def stabilityPenalty_def)

lemma finalScore_eq: "finalScore n = Num (of_int (max 0 n))"
  by (simp add: finalScore_def max_def)

lemma qualityScore_upper: "qualityScore b c sh st \<le> 100"
  by (simp add: qualityScore_penalties brightnessPenalty_def contrastPenalty_def
      sharpnessPenalty_def stabilityPenalty_def)

lemma compositeScore_range:
  "\<exists>r. compositeScore b c sh st = Num r \<and> 0 \<le> r \<and> r \<le> 100"
  using qualityScore_upper[of b c sh st] by (simp add: compositeScore_def finalScore_eq)

text \<open>The array that \<^verbatim>\<open>estimateContrast\<close> fills holds the luminosity of each sampled offset.\<close>

lemma contrast_loop_samples:
  "contrast_loop d i pixels = pixels @ map (luminosity d) (sample_offsets (length d) i)"
proof (induction d i pixels rule: contrast_loop.induct)
  case (1 d i pixels)
  show ?case
  proof (cases "i < length d")
    case True
    then show ?thesis
      using 1[OF True]
      by (simp add: contrast_loop.simps[of d i] sample_offsets.simps[of "length d" i])
  next
    case False
    then show ?thesis
      by (simp add: contrast_loop.simps[of d i] sample_offsets.simps[of "length d" i])
  qed
qed

lemma sample_offsets_empty: "sample_offsets n 0 = [] \<longleftrightarrow> n = 0"
  by (simp add: sample_offsets.simps[of n 0])

text \<open>\<^verbatim>\<open>estimateContrast\<close> throws on an empty buffer only.\<close>

lemma estimateContrast_throws:
  "estimateContrast imageData = Inl e \<longleftrightarrow> e = TypeError \<and> data imageData = []"
proof -
  have "contrast_loop (data imageData) 0 [] = [] \<longleftrightarrow> data imageData = []"
    by (simp add: contrast_loop_samples sample_offsets_empty)
  then show ?thesis
    by (cases "contrast_loop (data imageData) 0 []") (auto simp: estimateContrast_def Let_def)
qed

lemma assessFrameQuality_cases:
  "(assessFrameQuality imageData prevImageData = Inl TypeError \<and> data imageData = [])
   \<or> (\<exists>c m. estimateContrast imageData = Inr c
          \<and> assessFrameQuality imageData prevImageData = Inr m
          \<and> score m = compositeScore (estimateBrightness imageData) c
                (estimateSharpness imageData) (estimateStability prevImageData imageData))"
proof (cases "estimateContrast imageData")
  case (Inl e)
  then show ?thesis
    using estimateContrast_throws[of imageData e]
    by (simp add: assessFrameQuality_def)
next
  case (Inr c)
  then show ?thesis
    by (simp add: assessFrameQuality_def Let_def compositeScore_def)
qed

text \<open>
  Claim C1. Whatever the four raw metrics are (\<open>NaN\<close> included), the scoring block of
  \<^verbatim>\<open>assessFrameQuality\<close> starts at 100 and subtracts the penalty of each metric: 30 or 15
  for brightness, 20 or 10 for contrast, 40 or 20 for sharpness, 20 or 10 for stability.
  The returned score is that number floored at 0, and lies in [0, 100]. On every
  non-empty buffer \<^verbatim>\<open>assessFrameQuality\<close> returns metrics whose score is the one so
  computed from the four estimates; on an empty buffer it throws.
\<close>

theorem assessFrameQuality_score:
  "qualityScore b c sh st =
     100 - brightnessPenalty b - contrastPenalty c - sharpnessPenalty sh - stabilityPenalty st
   \<and> compositeScore b c sh st = Num (of_int (max 0 (qualityScore b c sh st)))
   \<and> (\<exists>r. compositeScore b c sh st = Num r \<and> 0 \<le> r \<and> r \<le> 100)
   \<and> ((assessFrameQuality imageData prevImageData = Inl TypeError \<and> data imageData = [])
      \<or> (\<exists>c' m. estimateContrast imageData = Inr c'
            \<and> assessFrameQuality imageData prevImageData = Inr m
            \<and> score m = compositeScore (estimateBrightness imageData) c'
                  (estimateSharpness imageData) (estimateStability prevImageData imageData)))"
  using qualityScore_penalties[of b c sh st] compositeScore_range[of b c sh st]
    assessFrameQuality_cases[of imageData prevImageData]
  by (simp add: compositeScore_def finalScore_eq)

section \<open>Monotonicity of the score\<close>

lemma compositeScore_mono:
  "qualityScore b c sh st \<le> qualityScore b' c' sh' st'
   \<Longrightarrow> js_ge (compositeScore b' c' sh' st') (compositeScore b c sh st)"
  by (simp add: compositeScore_def finalScore_eq)

text \<open>
  Claim C8. With the other three metrics held fixed, the score does not increase when one
  metric's penalty condition worsens: when sharpness, contrast or stability decreases,
  when brightness decreases below the upper limit 200 of the good band, or when it
  increases above the lower limit 50 of the good band.
\<close>

theorem score_monotone:
  "(s1 \<le> s2 \<longrightarrow> js_ge (compositeScore b c (Num s2) st) (compositeScore b c (Num s1) st))
   \<and> (c1 \<le> c2 \<longrightarrow> js_ge (compositeScore b (Num c2) sh st) (compositeScore b (Num c1) sh st))
   \<and> (t1 \<le> t2 \<longrightarrow> js_ge (compositeScore b c sh (Num t2)) (compositeScore b c sh (Num t1)))
   \<and> (b1 \<le> b2 \<and> b2 \<le> 200
        \<longrightarrow> js_ge (compositeScore (Num b2) c sh st) (compositeScore (Num b1) c sh st))
   \<and> (50 \<le> b1 \<and> b1 \<le> b2
        \<longrightarrow> js_ge (compositeScore (Num b1) c sh st) (compositeScore (Num b2) c sh st))"
proof (intro conjI impI)
  assume "s1 \<le> s2"
  then have "sharpnessPenalty (Num s2) \<le> sharpnessPenalty (Num s1)"
    by (simp add: sharpnessPenalty_def)
  then show "js_ge (compositeScore b c (Num s2) st) (compositeScore b c (Num s1) st)"
    by (intro compositeScore_mono) (simp add: qualityScore_penalties)
next
  assume "c1 \<le> c2"
  then have "contrastPenalty (Num c2) \<le> contrastPenalty (Num c1)"
    by (simp add: contrastPenalty_def)
  then show "js_ge (compositeScore b (Num c2) sh st) (compositeScore b (Num c1) sh st)"
    by (intro compositeScore_mono) (simp add: qualityScore_penalties)
next
  assume "t1 \<le> t2"
  then have "stabilityPenalty (Num t2) \<le> stabilityPenalty (Num t1)"
    by (simp add: stabilityPenalty_def)
  then show "js_ge (compositeScore b c sh (Num t2)) (compositeScore b c sh (Num t1))"
    by (intro compositeScore_mono) (simp add: qualityScore_penalties)
next
  assume "b1 \<le> b2 \<and> b2 \<le> 200"
  then have "brightnessPenalty (Num b2) \<le> brightnessPenalty (Num b1)"
    by (simp add: brightnessPenalty_def)
  then show "js_ge (compositeScore (Num b2) c sh st) (compositeScore (Num b1) c sh st)"
    by (intro compositeScore_mono) (simp add: qualityScore_penalties)
next
  assume "50 \<le> b1 \<and> b1 \<le> b2"
  then have "brightnessPenalty (Num b1) \<le> brightnessPenalty (Num b2)"
    by (simp add: brightnessPenalty_def)
  then show "js_ge (compositeScore (Num b1) c sh st) (compositeScore (Num b2) c sh st)"
    by (intro compositeScore_mono) (simp add: qualityScore_penalties)
qed

text \<open>
  The example of the specification: sharpness 70 against sharpness 20 gives 100 against 60;
  and one instance of each of the other four directions.
\<close>

theorem score_monotone_witness:
  "(20::real) \<le> 70
   \<and> compositeScore (Num 128) (Num 50) (Num 70) (Num 100) = Num 100
   \<and> compositeScore (Num 128) (Num 50) (Num 20) (Num 100) = Num 60
   \<and> js_ge (compositeScore (Num 128) (Num 50) (Num 70) (Num 100))
           (compositeScore (Num 128) (Num 50) (Num 20) (Num 100))
   \<and> (10::real) \<le> 45
   \<and> js_ge (compositeScore (Num 128) (Num 45) (Num 70) (Num 100))
           (compositeScore (Num 128) (Num 10) (Num 70) (Num 100))
   \<and> (40::real) \<le> 80
   \<and> js_ge (compositeScore (Num 128) (Num 50) (Num 70) (Num 80))
           (compositeScore (Num 128) (Num 50) (Num 70) (Num 40))
   \<and> ((20::real) \<le> 128 \<and> (128::real) \<le> 200)
   \<and> js_ge (compositeScore (Num 128) (Num 50) (Num 70) (Num 100))
           (compositeScore (Num 20) (Num 50) (Num 70) (Num 100))
   \<and> ((50::real) \<le> 128 \<and> (128::real) \<le> 250)
   \<and> js_ge (compositeScore (Num 128) (Num 50) (Num 70) (Num 100))
           (compositeScore (Num 250) (Num 50) (Num 70) (Num 100))"
  using score_monotone[where ?s1.0 = 20 and ?s2.0 = 70 and ?c1.0 = 10 and ?c2.0 = 45
      and ?t1.0 = 40 and ?t2.0 = 80 and b = "Num 128" and c = "Num 50" and sh = "Num 70"
      and st = "Num 100"]
    score_monotone[where ?b1.0 = 20 and ?b2.0 = 128 and c = "Num 50" and sh = "Num 70"
      and st = "Num 100"]
    score_monotone[where ?b1.0 = 128 and ?b2.0 = 250 and c = "Num 50" and sh = "Num 70"
      and st = "Num 100"]
  by (simp add: compositeScore_def finalScore_def qualityScore_def)

section \<open>Buffers smaller than the sampling stride\<close>

text \<open>The counters of the sharpness loops only grow, and a total changes only with its counter.\<close>

lemma sharpness_cols_count:
  "sharpness_cols img i j (t, c) = (t', c') \<Longrightarrow> c \<le> c' \<and> (c' = c \<longrightarrow> t' = t)"
proof (induction img i j "(t, c)" arbitrary: t c rule: sharpness_cols.induct)
  case (1 img i j totalGradient count)
  show ?case
  proof (cases "int j < int (width img) - 4")
    case True
    then show ?thesis
      using 1(1)[OF True refl refl refl refl refl] 1(2)
      by (simp add: sharpness_cols.simps[of img i j] Let_def)
  next
    case False
    then show ?thesis
      using 1(2) by (simp add: sharpness_cols.simps[of img i j])
  qed
qed

lemma sharpness_rows_count:
  "sharpness_rows img i (t, c) = (t', c') \<Longrightarrow> c \<le> c' \<and> (c' = c \<longrightarrow> t' = t)"
proof (induction img i "(t, c)" arbitrary: t c rule: sharpness_rows.induct)
  case (1 img i)
  show ?case
  proof (cases "int i < int (height img) - 4")
    case True
    obtain t1 c1 where cols: "sharpness_cols img i 0 (t, c) = (t1, c1)"
      by (cases "sharpness_cols img i 0 (t, c)")
    from sharpness_cols_count[OF cols] have c1: "c \<le> c1" "c1 = c \<longrightarrow> t1 = t" by auto
    have "sharpness_rows img (i + 4) (t1, c1) = (t', c')"
      using 1(2) True cols by (simp add: sharpness_rows.simps[of img i])
    from 1(1)[OF True cols this] have "c1 \<le> c'" "c' = c1 \<longrightarrow> t' = t1" by auto
    then show ?thesis using c1 by auto
  next
    case False
    then show ?thesis
      using 1(2) by (simp add: sharpness_rows.simps[of img i])
  qed
qed

lemma sharpness_rows_zero:
  "sharpness_rows img 0 (Num 0, 0) = (totalGradient, 0) \<Longrightarrow> totalGradient = Num 0"
  using sharpness_rows_count[of img 0 "Num 0" 0 totalGradient 0] by simp

lemma brightness_loop_zero: "length d = 0 \<Longrightarrow> brightness_loop d 0 (Num 0) = Num 0"
  by (simp add: brightness_loop.simps[of "[]" 0])

text \<open>
  No sample point exists when the width or the height is at most 4: the loops of
  \<^verbatim>\<open>estimateSharpness\<close> do not run, and it returns \<^verbatim>\<open>0 / 0\<close>.
\<close>

lemma sharpness_rows_narrow:
  "width img \<le> 4 \<Longrightarrow> sharpness_rows img i acc = acc"
proof (induction img i acc rule: sharpness_rows.induct)
  case (1 img i acc)
  have cols: "sharpness_cols img i 0 acc = acc"
    using 1(2) by (cases acc) (simp add: sharpness_cols.simps[of img i 0])
  show ?case
  proof (cases "int i < int (height img) - 4")
    case True
    then show ?thesis
      using 1(1)[OF True 1(2)] cols by (simp add: sharpness_rows.simps[of img i])
  next
    case False
    then show ?thesis by (simp add: sharpness_rows.simps[of img i])
  qed
qed

lemma estimateSharpness_small:
  assumes "width img \<le> 4 \<or> height img \<le> 4"
  shows "estimateSharpness img = NaN"
proof -
  have "sharpness_rows img 0 (Num 0, 0) = (Num 0, 0)"
    using assms sharpness_rows_narrow[of img 0 "(Num 0, 0)"]
    by (auto simp: sharpness_rows.simps[of img 0])
  then show ?thesis by (simp add: estimateSharpness_def)
qed

text \<open>
  Claim C2. The claim asks that on every valid buffer of positive width and height the
  metrics are numbers in their ranges, and that a width or height below the sampling
  stride does not divide by zero. On the valid one-pixel white buffer the code returns
  \<open>NaN\<close> for sharpness (\<^verbatim>\<open>0 / 0\<close>: no sample point) and 1020 for brightness (one sample
  divided by \<^verbatim>\<open>data.length / 16 = 0.25\<close>), and \<^verbatim>\<open>assessFrameQuality\<close> hands both on.
\<close>

theorem small_buffer_metrics:
  "valid_image whitePixel
   \<and> estimateSharpness whitePixel = NaN
   \<and> estimateBrightness whitePixel = Num 1020
   \<and> assessFrameQuality whitePixel None =
       Inr \<lparr> brightness = Num 1020, contrast = Num 0, sharpness = NaN, stability = Num 100,
             score = Num 50 \<rparr>"
proof -
  have v: "valid_image whitePixel"
    by (simp add: valid_image_def whitePixel_def)
  have sh: "estimateSharpness whitePixel = NaN"
    by (rule estimateSharpness_small) (simp add: whitePixel_def)
  have br: "estimateBrightness whitePixel = Num 1020"
    by (simp add: estimateBrightness_def whitePixel_def brightness_loop.simps luminosity_def
        rd_def)
  have co: "estimateContrast whitePixel = Inr (Num 0)"
    by (simp add: estimateContrast_def whitePixel_def contrast_loop.simps luminosity_def rd_def)
  have st: "estimateStability None whitePixel = Num 100"
    by (simp add: estimateStability_def)
  have "assessFrameQuality whitePixel None =
       Inr \<lparr> brightness = Num 1020, contrast = Num 0, sharpness = NaN, stability = Num 100,
             score = Num 50 \<rparr>"
    by (simp add: assessFrameQuality_def sh br co st qualityScore_def finalScore_def)
  then show ?thesis using v sh br by simp
qed

section \<open>Stability\<close>

text \<open>The loop of \<^verbatim>\<open>estimateStability\<close> sums the differences at the sampled offsets and counts them.\<close>

lemma stability_loop_samples:
  "stability_loop prev cur i (t, c) =
     (js_add t (js_sum (map (redDiff prev cur) (sample_offsets (length prev) i))),
      c + length (sample_offsets (length prev) i))"
proof (induction prev cur i "(t, c)" arbitrary: t c rule: stability_loop.induct)
  case (1 prev cur i totalDiff count)
  show ?case
  proof (cases "i < length prev")
    case True
    then show ?thesis
      using 1[OF True]
      by (simp add: stability_loop.simps[of prev cur i] sample_offsets.simps[of "length prev" i]
          js_add_assoc redDiff_def)
  next
    case False
    then show ?thesis
      by (simp add: stability_loop.simps[of prev cur i] sample_offsets.simps[of "length prev" i]
          js_add_zero_right)
  qed
qed

lemma stability_loop_zero:
  assumes "stability_loop prev cur 0 (Num 0, 0) = (totalDiff, 0)"
  shows "totalDiff = Num 0"
proof -
  have "sample_offsets (length prev) 0 = []"
    using assms by (simp add: stability_loop_samples)
  then show ?thesis
    using assms by (simp add: stability_loop_samples)
qed

lemma estimateStability_refines:
  "estimateStability (Some prevImage) currImage = stabilityOfAvg (redAvgDiff prevImage currImage)"
  by (simp add: estimateStability_def stability_loop_samples redAvgDiff_def js_average_def
      stabilityOfAvg_def js_add_zero_left)

lemma stabilityOfAvg_Num:
  "stabilityOfAvg (Num a) = Num (max 0 (100 - (a / 30) * 100))"
  by (simp add: stabilityOfAvg_def)

lemma rd_in_range:
  assumes "i < length d"
  shows "\<exists>r. rd d i = Num r \<and> 0 \<le> r \<and> r \<le> 255"
proof -
  have "unat (d ! i) < 2 ^ 8"
    using unsigned_less[of "d ! i", where ?'a = nat] by simp
  then have "unat (d ! i) \<le> 255" by simp
  then have "real (unat (d ! i)) \<le> real 255" by (rule of_nat_mono)
  then have "real (unat (d ! i)) \<le> 255" by simp
  moreover have "0 \<le> real (unat (d ! i))" by (rule of_nat_0_le_iff)
  ultimately show ?thesis using assms by (simp add: rd_def)
qed

lemma redDiff_in_range:
  assumes "i < length prev" and "i < length cur"
  shows "\<exists>r. redDiff prev cur i = Num r \<and> 0 \<le> r \<and> r \<le> 255"
proof -
  from rd_in_range[OF assms(1)] obtain p where p: "rd prev i = Num p" "0 \<le> p" "p \<le> 255" by auto
  from rd_in_range[OF assms(2)] obtain c where c: "rd cur i = Num c" "0 \<le> c" "c \<le> 255" by auto
  show ?thesis using p c by (simp add: redDiff_def abs_if)
qed

lemma sample_offsets_lt: "j \<in> set (sample_offsets n i) \<Longrightarrow> j < n"
proof (induction n i rule: sample_offsets.induct)
  case (1 n i)
  then show ?case
    by (cases "i < n") (auto simp: sample_offsets.simps[of n i])
qed

lemma js_sum_bounded:
  "\<forall>x \<in> set xs. \<exists>r. x = Num r \<and> 0 \<le> r \<and> r \<le> B
   \<Longrightarrow> \<exists>s. js_sum xs = Num s \<and> 0 \<le> s \<and> s \<le> real (length xs) * B"
proof (induction xs)
  case Nil
  then show ?case by simp
next
  case (Cons x xs)
  then obtain r where r: "x = Num r" "0 \<le> r" "r \<le> B" by auto
  from Cons obtain s where s: "js_sum xs = Num s" "0 \<le> s" "s \<le> real (length xs) * B" by auto
  show ?case using r s by (simp add: algebra_simps)
qed

lemma js_average_bounded:
  assumes "xs \<noteq> []" and "\<forall>x \<in> set xs. \<exists>r. x = Num r \<and> 0 \<le> r \<and> r \<le> B"
  shows "\<exists>a. js_average xs = Num a \<and> 0 \<le> a \<and> a \<le> B"
proof -
  from js_sum_bounded[OF assms(2)] obtain s
    where s: "js_sum xs = Num s" "0 \<le> s" "s \<le> real (length xs) * B" by auto
  have pos: "0 < real (length xs)" using assms(1) by simp
  have "s / real (length xs) \<le> B"
    using s(3) pos by (simp add: pos_divide_le_eq mult.commute)
  then show ?thesis using s pos by (simp add: js_average_def)
qed

lemma redAvgDiff_defined:
  assumes "data prevImage \<noteq> []" and "length (data prevImage) \<le> length (data currImage)"
  shows "\<exists>a. redAvgDiff prevImage currImage = Num a \<and> 0 \<le> a \<and> a \<le> 255"
  unfolding redAvgDiff_def
proof (rule js_average_bounded)
  show "map (redDiff (data prevImage) (data currImage))
          (sample_offsets (length (data prevImage)) 0) \<noteq> []"
    using assms(1) by (simp add: sample_offsets_empty)
  show "\<forall>x\<in>set (map (redDiff (data prevImage) (data currImage))
          (sample_offsets (length (data prevImage)) 0)). \<exists>r. x = Num r \<and> 0 \<le> r \<and> r \<le> 255"
  proof
    fix x
    assume "x \<in> set (map (redDiff (data prevImage) (data currImage))
          (sample_offsets (length (data prevImage)) 0))"
    then obtain j where j: "j \<in> set (sample_offsets (length (data prevImage)) 0)"
      and x: "x = redDiff (data prevImage) (data currImage) j" by auto
    from j have "j < length (data prevImage)" by (rule sample_offsets_lt)
    then show "\<exists>r. x = Num r \<and> 0 \<le> r \<and> r \<le> 255"
      using assms(2) x redDiff_in_range[of j "data prevImage" "data currImage"] by simp
  qed
qed

lemma stabilityOfAvg_range:
  assumes "0 \<le> a"
  shows "\<exists>r. stabilityOfAvg (Num a) = Num r \<and> 0 \<le> r \<and> r \<le> 100"
  using assms by (simp add: stabilityOfAvg_Num)

text \<open>
  Claim C3 as stated speaks of every pair of buffers and of the luminance difference.
  Two one-pixel frames with the same red byte whose luminance differs by 178.755 get
  stability 100, where the map of their average luminance difference gives 0; and a
  five-pixel previous frame against a one-pixel current frame (both valid) gives \<open>NaN\<close>,
  because the second sample of the current frame is \<^verbatim>\<open>undefined\<close>.
\<close>

theorem stability_luminance_counterexample:
  "valid_image darkRedPixel \<and> valid_image paleRedPixel
   \<and> estimateStability (Some darkRedPixel) paleRedPixel = Num 100
   \<and> luminanceAvgDiff darkRedPixel paleRedPixel = Num (178755 / 1000)
   \<and> stabilityOfAvg (luminanceAvgDiff darkRedPixel paleRedPixel) = Num 0
   \<and> valid_image fivePixelRow \<and> valid_image whitePixel
   \<and> estimateStability (Some fivePixelRow) whitePixel = NaN"
proof -
  have v: "valid_image darkRedPixel \<and> valid_image paleRedPixel
      \<and> valid_image fivePixelRow \<and> valid_image whitePixel"
    by (simp add: valid_image_def darkRedPixel_def paleRedPixel_def fivePixelRow_def
        whitePixel_def)
  have red: "estimateStability (Some darkRedPixel) paleRedPixel = Num 100"
    by (simp add: estimateStability_def darkRedPixel_def paleRedPixel_def
        stability_loop.simps rd_def)
  have lum: "luminanceAvgDiff darkRedPixel paleRedPixel = Num (178755 / 1000)"
    by (simp add: luminanceAvgDiff_def luminanceDiff_def luminosity_def darkRedPixel_def
        paleRedPixel_def sample_offsets.simps js_average_def rd_def)
  have zero: "stabilityOfAvg (luminanceAvgDiff darkRedPixel paleRedPixel) = Num 0"
    by (simp add: lum stabilityOfAvg_def)
  have nan: "estimateStability (Some fivePixelRow) whitePixel = NaN"
    by (simp add: estimateStability_def fivePixelRow_def whitePixel_def
        stability_loop.simps rd_def)
  show ?thesis using v red lum zero nan by simp
qed

text \<open>
  Claim C3, as the code has it. Without a previous buffer \<^verbatim>\<open>estimateStability\<close>
  returns 100. For every pair of buffers in which the previous one is not empty and not
  longer than the current one (two frames of the same dimensions, in particular), it
  returns \<open>max(0, 100 - (avgDiff / 30) * 100)\<close>, a number in [0, 100], where \<open>avgDiff\<close> is
  the average absolute difference of byte 0 (the red channel) of every fourth pixel, a
  number in [0, 255]. An average of 0 gives 100 and an average of 30 or more gives 0.
\<close>

theorem estimateStability_red_channel_map:
  "estimateStability None currImage = Num 100
   \<and> (data prevImage \<noteq> [] \<and> length (data prevImage) \<le> length (data currImage)
        \<longrightarrow> (\<exists>d. redAvgDiff prevImage currImage = Num d \<and> 0 \<le> d \<and> d \<le> 255
               \<and> estimateStability (Some prevImage) currImage
                   = Num (max 0 (100 - (d / 30) * 100))
               \<and> js_ge (estimateStability (Some prevImage) currImage) (Num 0)
               \<and> js_ge (Num 100) (estimateStability (Some prevImage) currImage)))
   \<and> (redAvgDiff prevImage currImage = Num 0
        \<longrightarrow> estimateStability (Some prevImage) currImage = Num 100)
   \<and> (redAvgDiff prevImage currImage = Num a \<and> 30 \<le> a
        \<longrightarrow> estimateStability (Some prevImage) currImage = Num 0)"
proof (intro conjI impI)
  show "estimateStability None currImage = Num 100"
    by (simp add: estimateStability_def)
  show "estimateStability (Some prevImage) currImage = Num 100"
    if "redAvgDiff prevImage currImage = Num 0"
    using that by (simp add: estimateStability_refines stabilityOfAvg_Num)
  show "estimateStability (Some prevImage) currImage = Num 0"
    if "redAvgDiff prevImage currImage = Num a \<and> 30 \<le> a"
    using that by (simp add: estimateStability_refines stabilityOfAvg_Num)
  show "\<exists>d. redAvgDiff prevImage currImage = Num d \<and> 0 \<le> d \<and> d \<le> 255
               \<and> estimateStability (Some prevImage) currImage
                   = Num (max 0 (100 - (d / 30) * 100))
               \<and> js_ge (estimateStability (Some prevImage) currImage) (Num 0)
               \<and> js_ge (Num 100) (estimateStability (Some prevImage) currImage)"
    if "data prevImage \<noteq> [] \<and> length (data prevImage) \<le> length (data currImage)"
  proof -
    from that redAvgDiff_defined[of prevImage currImage]
    obtain d where d: "redAvgDiff prevImage currImage = Num d" "0 \<le> d" "d \<le> 255" by auto
    have eq: "estimateStability (Some prevImage) currImage = Num (max 0 (100 - (d / 30) * 100))"
      using d(1) by (simp add: estimateStability_refines stabilityOfAvg_Num)
    have "max 0 (100 - (d / 30) * 100) \<le> 100" using d(2) by simp
    then show ?thesis using d eq by auto
  qed
qed

text \<open>
  Identical one-pixel buffers have average difference 0 and stability 100; a black pixel
  against a white one has average difference 255 and stability 0.
\<close>

theorem estimateStability_red_channel_map_witness:
  "redAvgDiff whitePixel whitePixel = Num 0
   \<and> estimateStability (Some whitePixel) whitePixel = Num 100
   \<and> redAvgDiff blackPixel whitePixel = Num 255 \<and> (30::real) \<le> 255
   \<and> estimateStability (Some blackPixel) whitePixel = Num 0
   \<and> data blackPixel \<noteq> [] \<and> length (data blackPixel) \<le> length (data whitePixel)
   \<and> js_ge (estimateStability (Some blackPixel) whitePixel) (Num 0)
   \<and> js_ge (Num 100) (estimateStability (Some blackPixel) whitePixel)"
proof -
  have same: "redAvgDiff whitePixel whitePixel = Num 0"
    by (simp add: redAvgDiff_def whitePixel_def sample_offsets.simps js_average_def
        redDiff_def rd_def)
  have differ: "redAvgDiff blackPixel whitePixel = Num 255"
    by (simp add: redAvgDiff_def whitePixel_def blackPixel_def sample_offsets.simps
        js_average_def redDiff_def rd_def)
  have sizes: "data blackPixel \<noteq> [] \<and> length (data blackPixel) \<le> length (data whitePixel)"
    by (simp add: whitePixel_def blackPixel_def)
  have w: "estimateStability (Some whitePixel) whitePixel = Num 100"
    using estimateStability_red_channel_map[of whitePixel whitePixel 0] same
    by (simp add: stabilityOfAvg_def)
  have b: "estimateStability (Some blackPixel) whitePixel = Num 0"
    using estimateStability_red_channel_map[of whitePixel blackPixel 255] differ
    by (simp add: stabilityOfAvg_def)
  have r: "js_ge (estimateStability (Some blackPixel) whitePixel) (Num 0)
      \<and> js_ge (Num 100) (estimateStability (Some blackPixel) whitePixel)"
    using estimateStability_red_channel_map[of whitePixel blackPixel 255] sizes by auto
  show ?thesis using same differ sizes w b r by simp
qed

section \<open>The capture tick\<close>

lemma valid_image_nonempty: "valid_image img \<Longrightarrow> data img \<noteq> []"
  by (auto simp: valid_image_def)

lemma assessFrameQuality_returns:
  "valid_image img \<Longrightarrow> \<exists>m. assessFrameQuality img prev = Inr m"
  using assessFrameQuality_cases[of img prev] valid_image_nonempty[of img] by auto

lemma captureTick_passing:
  assumes "frameAvailable env"
    and "assessFrameQuality (frame env) (prevImageDataRef s) = Inr m"
    and "isFrameGoodQuality m minQuality"
  shows "captureTick minQuality env s =
           s\<lparr> prevImageDataRef := Some (frame env), frameMetrics := Some m,
              emitted := emitted s @ [(frameJpeg env, m)] \<rparr>"
  using assms
  by (simp add: captureTick_def captureFrameWithQuality_def getImageData_def frameAvailable_def
      valid_image_def)

lemma captureTick_below:
  assumes "frameAvailable env" and "belowThreshold minQuality (frame env) (prevImageDataRef s)"
  shows "captureTick minQuality env s =
           s\<lparr> prevImageDataRef := Some (frame env),
              emitted := emitted s @ [(frameJpeg env, placeholderMetrics)] \<rparr>"
proof -
  from assms(2) obtain m where m: "assessFrameQuality (frame env) (prevImageDataRef s) = Inr m"
    and bad: "\<not> isFrameGoodQuality m minQuality"
    by (auto simp: belowThreshold_def split: sum.splits)
  show ?thesis
    using assms(1) m bad
    by (simp add: captureTick_def captureFrameWithQuality_def getImageData_def
        frameAvailable_def valid_image_def captureFrame_def)
qed

text \<open>A tick that can capture a frame calls \<^verbatim>\<open>onFrame\<close> exactly once, whatever the quality.\<close>

lemma captureTick_emits_one:
  assumes "frameAvailable env"
  shows "length (emitted (captureTick minQuality env s)) = length (emitted s) + 1"
proof -
  from assms have "valid_image (frame env)" by (simp add: frameAvailable_def)
  from assessFrameQuality_returns[OF this] obtain m
    where m: "assessFrameQuality (frame env) (prevImageDataRef s) = Inr m" by blast
  show ?thesis
  proof (cases "isFrameGoodQuality m minQuality")
    case True
    then show ?thesis using captureTick_passing[OF assms m] by simp
  next
    case False
    then have "belowThreshold minQuality (frame env) (prevImageDataRef s)"
      using m by (simp add: belowThreshold_def)
    then show ?thesis using captureTick_below[OF assms] by simp
  qed
qed


text \<open>The one-pixel black frame scores 50, below the default threshold 70.\<close>

lemma blackPixel_first: "assessFrameQuality blackPixel None =
    Inr \<lparr> brightness = Num 0, contrast = Num 0, sharpness = NaN, stability = Num 100,
          score = Num 50 \<rparr>"
  by (simp add: assessFrameQuality_def estimateSharpness_small estimateBrightness_def
      estimateContrast_def estimateStability_def blackPixel_def brightness_loop.simps
      contrast_loop.simps luminosity_def rd_def qualityScore_def finalScore_def Let_def)



section \<open>Stopping and unmounting\<close>

text \<open>Stopping the tracks of a stream leaves none of them live.\<close>

lemma stopTracks_Nil [simp]: "stopTracks [] ts = ts"
  by (simp add: stopTracks_def)

lemma stopTracks_Cons [simp]: "stopTracks (i # ids) ts = stopTracks ids (ts[i := False])"
  by (simp add: stopTracks_def)

lemma length_stopTracks [simp]: "length (stopTracks ids ts) = length ts"
  by (induction ids arbitrary: ts) simp_all

lemma stopTracks_stays_stopped:
  "j < length ts \<Longrightarrow> \<not> ts ! j \<Longrightarrow> \<not> stopTracks ids ts ! j"
proof (induction ids arbitrary: ts)
  case Nil
  then show ?case by simp
next
  case (Cons i ids)
  have "\<not> (ts[i := False]) ! j"
    using Cons.prems by (cases "i = j") simp_all
  then show ?case using Cons.IH[of "ts[i := False]"] Cons.prems by simp
qed

lemma stopTracks_stops:
  "j \<in> set ids \<Longrightarrow> j < length ts \<Longrightarrow> \<not> stopTracks ids ts ! j"
proof (induction ids arbitrary: ts)
  case Nil
  then show ?case by simp
next
  case (Cons i ids)
  show ?case
  proof (cases "j = i")
    case True
    then have "\<not> (ts[i := False]) ! j" using Cons.prems by simp
    then show ?thesis
      using stopTracks_stays_stopped[of j "ts[i := False]" ids] Cons.prems by simp
  next
    case False
    then show ?thesis using Cons.IH[of "ts[i := False]"] Cons.prems by simp
  qed
qed

lemma liveTracks_stopTracks: "liveTracks ids (stopTracks ids ts) = []"
  by (auto simp: liveTracks_def filter_empty_conv dest: stopTracks_stops)

text \<open>The invariant holds initially and every operation of a mounted hook keeps it.\<close>

lemma capture_inv_initial: "capture_inv initialCapture"
  by (simp add: capture_inv_def initialCapture_def)

lemma capture_inv_startStream: "capture_inv s \<Longrightarrow> capture_inv (startStream outcome el s)"
  by (auto simp: capture_inv_def startStream_def Let_def split: sum.splits)

lemma capture_inv_stopStream: "capture_inv s \<Longrightarrow> capture_inv (stopStream s)"
  by (auto simp: capture_inv_def stopStream_def split: option.splits)

lemma capture_inv_captureTick: "capture_inv s \<Longrightarrow> capture_inv (captureTick q env s)"
  by (auto simp: capture_inv_def captureTick_def captureFrameWithQuality_def Let_def
      split: sum.splits option.splits prod.splits if_splits)

text \<open>
  What \<^verbatim>\<open>stopStream\<close> and the cleanup on unmount do release: the tracks of the stream
  that \<open>streamRef\<close> holds at that moment, and the reference itself.
\<close>

lemma stop_stops_held_tracks:
  assumes "streamRef s = Some ids"
  shows "streamRef (stopStream s) = None \<and> \<not> isStreaming (stopStream s)
   \<and> liveTracks ids (tracks (stopStream s)) = []
   \<and> streamRef (unmount s) = None
   \<and> liveTracks ids (tracks (unmount s)) = []"
  using assms by (simp add: stopStream_def unmount_def liveTracks_stopTracks)

lemma stop_keeps_prevImageData:
  "prevImageDataRef (stopStream s) = prevImageDataRef s
   \<and> prevImageDataRef (unmount s) = prevImageDataRef s"
  by (simp add: stopStream_def unmount_def split: option.splits)

text \<open>The session that has captured one black frame, written out.\<close>

lemma streamingCapture_eq:
  "streamingCapture =
     \<lparr> tracks = [True, True], streamRef = Some [0, 1], prevImageDataRef = Some blackPixel,
       isStreaming = True, cameraError = None, frameMetrics = None, mounted = True,
       emitted = [(''data:image/jpeg;base64,/9j/4AAQ'', placeholderMetrics)] \<rparr>"
proof -
  have av: "frameAvailable darkEnv"
    by (simp add: frameAvailable_def darkEnv_def valid_image_def blackPixel_def)
  have start: "startStream (Inr 2) True initialCapture =
     \<lparr> tracks = [True, True], streamRef = Some [0, 1], prevImageDataRef = None,
       isStreaming = True, cameraError = None, frameMetrics = None, mounted = True,
       emitted = [] \<rparr>"
    by (simp add: startStream_def initialCapture_def Let_def upt_rec numeral_2_eq_2)
  have "belowThreshold (Num 70) (frame darkEnv)
          (prevImageDataRef (startStream (Inr 2) True initialCapture))"
    by (simp add: start darkEnv_def belowThreshold_def blackPixel_first isFrameGoodQuality_def)
  from captureTick_below[OF av this] show ?thesis
    by (simp add: streamingCapture_def start darkEnv_def)
qed

text \<open>
  A session restarted after a stop compares its first frame with the last frame of the
  session before, where \<^verbatim>\<open>estimateStability\<close> means to treat a first frame as stable.
\<close>

lemma restart_compares_with_stale_snapshot:
  "prevImageDataRef (startStream (Inr 1) True (stopStream streamingCapture)) = Some blackPixel
   \<and> estimateStability
        (prevImageDataRef (startStream (Inr 1) True (stopStream streamingCapture))) whitePixel
      = Num 0"
proof -
  have p: "prevImageDataRef (startStream (Inr 1) True (stopStream streamingCapture))
            = Some blackPixel"
    by (simp add: streamingCapture_eq stopStream_def startStream_def Let_def)
  have "estimateStability (Some blackPixel) whitePixel = Num 0"
    by (simp add: estimateStability_def blackPixel_def whitePixel_def stability_loop.simps rd_def)
  then show ?thesis using p by simp
qed

lemma restartedCapture_eq:
  "restartedCapture =
     \<lparr> tracks = [True, True], streamRef = Some [1], prevImageDataRef = None,
       isStreaming = True, cameraError = None, frameMetrics = None, mounted = True,
       emitted = [] \<rparr>"
  by (simp add: restartedCapture_def startStream_def initialCapture_def Let_def upt_rec)

lemma lateCapture_eq:
  "lateCapture =
     \<lparr> tracks = [True, True], streamRef = None, prevImageDataRef = None,
       isStreaming = False, cameraError = None, frameMetrics = None, mounted = True,
       emitted = [] \<rparr>"
  by (simp add: lateCapture_def startStream_def initialCapture_def Let_def numeral_2_eq_2)

lemma restartedCapture_inv: "capture_inv restartedCapture"
  by (simp add: restartedCapture_def capture_inv_initial capture_inv_startStream)

text \<open>
  Claim C7. The claim asks that after \<^verbatim>\<open>stopStream\<close>, and after the cleanup on unmount,
  every camera track is released and the previous-frame snapshot is cleared. When
  \<^verbatim>\<open>startStream\<close> has resolved twice, the second stream replaced the first in
  \<open>streamRef\<close>, and stopping or unmounting stops only the second track: the first stays
  live. When it resolved while no video element was mounted, the stream was never stored,
  and stopping or unmounting stops none of its tracks. And the session that has captured
  the black frame still holds it as its snapshot after stopping and after unmounting.
\<close>

theorem stop_leaves_camera_tracks_live:
  "tracks restartedCapture = [True, True]
   \<and> tracks (stopStream restartedCapture) = [True, False]
   \<and> tracks (unmount restartedCapture) = [True, False]
   \<and> tracks lateCapture = [True, True]
   \<and> tracks (stopStream lateCapture) = [True, True]
   \<and> tracks (unmount lateCapture) = [True, True]
   \<and> prevImageDataRef (stopStream streamingCapture) = Some blackPixel
   \<and> prevImageDataRef (unmount streamingCapture) = Some blackPixel"
  by (simp add: restartedCapture_eq lateCapture_eq streamingCapture_eq stopStream_def
      unmount_def)

section \<open>Inbound messages\<close>

text \<open>
  Claim C5. The \<^verbatim>\<open>onmessage\<close> handler, for a message \<open>d\<close> of each type and any state \<open>s\<close>:
  \<^verbatim>\<open>processing_started\<close> sets \<open>isProcessing\<close>; \<^verbatim>\<open>token\<close> and \<^verbatim>\<open>partial\<close> replace
  \<open>currentResult\<close> and leave \<open>isProcessing\<close>; \<^verbatim>\<open>complete\<close>, \<^verbatim>\<open>error\<close> and \<^verbatim>\<open>dropped\<close>
  replace \<open>currentResult\<close> and clear \<open>isProcessing\<close>; \<^verbatim>\<open>low_confidence\<close> and
  \<^verbatim>\<open>quality_warning\<close> replace \<open>currentResult\<close> only; each parsed message is handed to
  \<^verbatim>\<open>onResult\<close>. A message that does not parse is logged and changes nothing else. After a
  \<^verbatim>\<open>complete\<close> message received while processing, \<open>isProcessing\<close> is false and the type
  of \<open>currentResult\<close> is \<^verbatim>\<open>complete\<close>.
\<close>

theorem onmessage_dispatch:
  "onmessage (JsonValue (d\<lparr> rtype := ''processing_started'' \<rparr>)) s =
     s\<lparr> isProcessing := True,
        delivered := delivered s @ [d\<lparr> rtype := ''processing_started'' \<rparr>] \<rparr>
   \<and> onmessage (JsonValue (d\<lparr> rtype := ''token'' \<rparr>)) s =
       s\<lparr> currentResult := Some (d\<lparr> rtype := ''token'' \<rparr>),
          delivered := delivered s @ [d\<lparr> rtype := ''token'' \<rparr>] \<rparr>
   \<and> onmessage (JsonValue (d\<lparr> rtype := ''partial'' \<rparr>)) s =
       s\<lparr> currentResult := Some (d\<lparr> rtype := ''partial'' \<rparr>),
          delivered := delivered s @ [d\<lparr> rtype := ''partial'' \<rparr>] \<rparr>
   \<and> onmessage (JsonValue (d\<lparr> rtype := ''complete'' \<rparr>)) s =
       s\<lparr> currentResult := Some (d\<lparr> rtype := ''complete'' \<rparr>), isProcessing := False,
          delivered := delivered s @ [d\<lparr> rtype := ''complete'' \<rparr>] \<rparr>
   \<and> onmessage (JsonValue (d\<lparr> rtype := ''error'' \<rparr>)) s =
       s\<lparr> currentResult := Some (d\<lparr> rtype := ''error'' \<rparr>), isProcessing := False,
          delivered := delivered s @ [d\<lparr> rtype := ''error'' \<rparr>] \<rparr>
   \<and> onmessage (JsonValue (d\<lparr> rtype := ''dropped'' \<rparr>)) s =
       s\<lparr> currentResult := Some (d\<lparr> rtype := ''dropped'' \<rparr>), isProcessing := False,
          delivered := delivered s @ [d\<lparr> rtype := ''dropped'' \<rparr>] \<rparr>
   \<and> onmessage (JsonValue (d\<lparr> rtype := ''low_confidence'' \<rparr>)) s =
       s\<lparr> currentResult := Some (d\<lparr> rtype := ''low_confidence'' \<rparr>),
          delivered := delivered s @ [d\<lparr> rtype := ''low_confidence'' \<rparr>] \<rparr>
   \<and> onmessage (JsonValue (d\<lparr> rtype := ''quality_warning'' \<rparr>)) s =
       s\<lparr> currentResult := Some (d\<lparr> rtype := ''quality_warning'' \<rparr>),
          delivered := delivered s @ [d\<lparr> rtype := ''quality_warning'' \<rparr>] \<rparr>
   \<and> onmessage Unparseable s = s\<lparr> console := console s @ [LogParseError SyntaxError] \<rparr>
   \<and> onmessage JsonNull s = s\<lparr> console := console s @ [LogParseError TypeError] \<rparr>
   \<and> isProcessing (onmessage (JsonValue (d\<lparr> rtype := ''complete'' \<rparr>))
         (s\<lparr> isProcessing := True \<rparr>)) = False
   \<and> map_option rtype (currentResult (onmessage (JsonValue (d\<lparr> rtype := ''complete'' \<rparr>))
         (s\<lparr> isProcessing := True \<rparr>))) = Some ''complete''"
  by (simp add: onmessage_def)

text \<open>The scenario of the specification, on the handle of an open channel.\<close>

lemma complete_scenario:
  "socketMessage 0 (JsonValue completeMessage) (openChannel\<lparr> isProcessing := True \<rparr>) =
     openChannel\<lparr> isProcessing := False, currentResult := Some completeMessage,
        delivered := [completeMessage] \<rparr>"
  by (simp add: socketMessage_def openChannel_def socketOpened_def connect_def
      initialChannel_def onmessage_def completeMessage_def Let_def)

section \<open>Outbound frames\<close>









lemma openChannel_eq:
  "openChannel =
     \<lparr> sockets = [\<lparr> readyState = OPEN, listeners = True, outbox = [] \<rparr>], wsRef = Some 0,
       isConnected = True, currentResult = None, isProcessing = False, wsError = None,
       delivered = [], console = [LogConnected] \<rparr>"
  by (simp add: openChannel_def socketOpened_def connect_def initialChannel_def Let_def)


section \<open>Reconnecting\<close>

lemma liveHandles_connect:
  "liveHandles (connect None s) =
     liveHandles s @ [\<lparr> readyState = CONNECTING, listeners = True, outbox = [] \<rparr>]"
  by (simp add: liveHandles_def connect_def Let_def)

lemma sockets_disconnect:
  "map listeners (sockets (disconnect s)) = map listeners (sockets s)
   \<and> length (sockets (disconnect s)) = length (sockets s)"
  by (auto simp: disconnect_def Let_def map_update list_eq_iff_nth_eq nth_list_update
      refReadyState_def split: option.splits)

text \<open>
  Claim C10, as the code has it. \<^verbatim>\<open>connect\<close> creates one new handle with its listeners
  attached and makes it the current one; every handle created earlier stays as it was,
  neither closed nor without its listeners, so the live handles are the earlier ones and
  the new one. \<^verbatim>\<open>disconnect\<close> drops the current reference and detaches no listener.
\<close>

theorem connect_keeps_earlier_handles:
  "connect None s =
     s\<lparr> sockets := sockets s @ [\<lparr> readyState = CONNECTING, listeners = True, outbox = [] \<rparr>],
        wsRef := Some (length (sockets s)) \<rparr>
   \<and> take (length (sockets s)) (sockets (connect None s)) = sockets s
   \<and> liveHandles (connect None s) =
       liveHandles s @ [\<lparr> readyState = CONNECTING, listeners = True, outbox = [] \<rparr>]
   \<and> wsRef (disconnect s) = None
   \<and> map listeners (sockets (disconnect s)) = map listeners (sockets s)
   \<and> (wsRef s = Some i \<and> i < length (sockets s) \<and> readyState (sockets s ! i) = OPEN
        \<longrightarrow> readyState (sockets (disconnect s) ! i) = CLOSING)
   \<and> (refReadyState s \<noteq> Some OPEN \<longrightarrow> sockets (disconnect s) = sockets s)"
  using liveHandles_connect[of s] sockets_disconnect[of s]
  by (auto simp: connect_def Let_def disconnect_def refReadyState_def split: option.splits)

text \<open>
  Disconnecting the open channel requests the close of its handle; disconnecting a channel
  that was never connected changes no handle.
\<close>

theorem connect_keeps_earlier_handles_witness:
  "wsRef openChannel = Some 0 \<and> 0 < length (sockets openChannel)
   \<and> readyState (sockets openChannel ! 0) = OPEN
   \<and> readyState (sockets (disconnect openChannel) ! 0) = CLOSING
   \<and> listeners (sockets (disconnect openChannel) ! 0)
   \<and> refReadyState initialChannel \<noteq> Some OPEN
   \<and> sockets (disconnect initialChannel) = sockets initialChannel"
proof -
  have o: "wsRef openChannel = Some 0 \<and> 0 < length (sockets openChannel)
      \<and> readyState (sockets openChannel ! 0) = OPEN"
    by (simp add: openChannel_eq)
  have c: "refReadyState initialChannel \<noteq> Some OPEN"
    by (simp add: initialChannel_def refReadyState_def)
  have l: "listeners (sockets (disconnect openChannel) ! 0)"
    by (simp add: openChannel_eq disconnect_def refReadyState_def)
  from connect_keeps_earlier_handles[of openChannel 0]
    connect_keeps_earlier_handles[of initialChannel 0] o c l
  show ?thesis by blast
qed

lemma reconnectedChannel_eq:
  "reconnectedChannel =
     \<lparr> sockets = [\<lparr> readyState = OPEN, listeners = True, outbox = [] \<rparr>,
                  \<lparr> readyState = CONNECTING, listeners = True, outbox = [] \<rparr>],
       wsRef = Some 1, isConnected = True, currentResult = None, isProcessing = False,
       wsError = None, delivered = [], console = [LogConnected] \<rparr>"
  by (simp add: reconnectedChannel_def openChannel_eq connect_def Let_def)

text \<open>
  Claim C10 as stated says that a second \<^verbatim>\<open>connect\<close> closes the earlier handle and
  detaches its listeners first. After connecting an open channel again, two handles are
  live: the earlier one is still open with its listeners attached, and a message arriving
  on it still sets \<open>currentResult\<close>.
\<close>

theorem reconnect_leaves_two_handles:
  "length (liveHandles reconnectedChannel) = 2
   \<and> readyState (sockets reconnectedChannel ! 0) = OPEN
   \<and> listeners (sockets reconnectedChannel ! 0)
   \<and> wsRef reconnectedChannel = Some 1
   \<and> currentResult (socketMessage 0 (JsonValue completeMessage) reconnectedChannel) =
       Some completeMessage"
  by (simp add: reconnectedChannel_eq liveHandles_def socketMessage_def onmessage_def
      completeMessage_def)

text \<open>
  Also after a \<^verbatim>\<open>disconnect\<close> the earlier handle keeps its listeners: when it closes after
  the new handle has opened, its \<^verbatim>\<open>onclose\<close> clears \<open>isConnected\<close> although the current
  handle is open.
\<close>

lemma stale_close_after_retry:
  "listeners (sockets retryChannel ! 0)
   \<and> readyState (sockets retryChannel ! 0) = CLOSING
   \<and> refReadyState (socketClosed 0 (socketOpened 1 retryChannel)) = Some OPEN
   \<and> \<not> isConnected (socketClosed 0 (socketOpened 1 retryChannel))"
  by (simp add: retryChannel_def openChannel_eq disconnect_def connect_def refReadyState_def
      socketOpened_def socketClosed_def Let_def)

section \<open>The confidence value in the result view\<close>

text \<open>
  Claim C9. The result view reads one confidence value on two scales: the success icon is
  chosen by comparing the value with 70, the displayed percentage is the value times 100,
  rounded. So for every value from 0.7 up to, but not including, 70 the display reads 70%
  or more while the icon is the one for a value below the threshold.
\<close>

theorem confidence_two_scales:
  "(successIndicator c = ''check_circle'') = (70 \<le> c)
   \<and> (successIndicator c = ''info'') = (c < 70)
   \<and> displayedPercent c = Num (of_int \<lfloor>c * 100 + 1 / 2\<rfloor>)
   \<and> confidenceOf (r\<lparr> confidence := Some (Num c) \<rparr>) = c
   \<and> (7 / 10 \<le> c \<and> c < 70 \<longrightarrow>
        successIndicator c = ''info'' \<and> js_ge (displayedPercent c) (Num 70))"
proof -
  have "real_of_int 70 \<le> real_of_int \<lfloor>c * 100 + 1 / 2\<rfloor>" if "7 / 10 \<le> c"
  proof -
    have "(70::int) \<le> \<lfloor>c * 100 + 1 / 2\<rfloor>"
      using that by (simp add: le_floor_iff)
    then show ?thesis by (simp only: of_int_le_iff)
  qed
  then show ?thesis
    by (auto simp: successIndicator_def displayedPercent_def confidenceOf_def)
qed

text \<open>The value 0.82: displayed as 82, with the icon \<^verbatim>\<open>info\<close>.\<close>

theorem confidence_two_scales_witness:
  "(7 / 10 \<le> (82 / 100 :: real) \<and> (82 / 100 :: real) < 70)
   \<and> displayedPercent (82 / 100) = Num 82
   \<and> successIndicator (82 / 100) = ''info''
   \<and> js_ge (displayedPercent (82 / 100)) (Num 70)"
  using confidence_two_scales[of "82 / 100"]
  by (simp add: displayedPercent_def)

section \<open>Buffers larger than the sampling stride\<close>

text \<open>
  Where the estimates do stay in range. The sum of \<^verbatim>\<open>estimateBrightness\<close> runs over the
  luminosities of the sampled offsets; there are \<open>length / 16\<close> of them when 16 divides
  the length.
\<close>

lemma js_sum_append: "js_sum (xs @ ys) = js_add (js_sum xs) (js_sum ys)"
  by (induction xs) (simp_all add: js_add_zero_left js_add_assoc)

lemma foldl_js_add: "foldl js_add a xs = js_add a (js_sum xs)"
  by (induction xs arbitrary: a) (simp_all add: js_add_zero_right js_add_assoc)

lemma brightness_loop_samples:
  "brightness_loop d i s = js_add s (js_sum (map (luminosity d) (sample_offsets (length d) i)))"
proof (induction d i s rule: brightness_loop.induct)
  case (1 d i s)
  show ?case
  proof (cases "i < length d")
    case True
    then show ?thesis
      using 1[OF True]
      by (simp add: brightness_loop.simps[of d i] sample_offsets.simps[of "length d" i]
          js_add_assoc)
  next
    case False
    then show ?thesis
      by (simp add: brightness_loop.simps[of d i] sample_offsets.simps[of "length d" i]
          js_add_zero_right)
  qed
qed

lemma sample_offsets_dvd:
  "j \<in> set (sample_offsets n i) \<Longrightarrow> 16 dvd i \<Longrightarrow> 16 dvd j"
proof (induction n i rule: sample_offsets.induct)
  case (1 n i)
  show ?case
  proof (cases "i < n")
    case True
    then have "j = i \<or> j \<in> set (sample_offsets n (i + 16))"
      using 1(2) by (simp add: sample_offsets.simps[of n i])
    then show ?thesis using 1(1)[OF True] 1(3) by auto
  next
    case False
    then show ?thesis using 1(2) by (simp add: sample_offsets.simps[of n i])
  qed
qed

lemma sample_offsets_length:
  "16 dvd n \<Longrightarrow> 16 dvd i \<Longrightarrow> length (sample_offsets n i) = (n - i) div 16"
proof (induction n i rule: sample_offsets.induct)
  case (1 n i)
  show ?case
  proof (cases "i < n")
    case True
    have "length (sample_offsets n (i + 16)) = (n - (i + 16)) div 16"
      using 1(1)[OF True] 1(2,3) by simp
    moreover have "i + 16 \<le> n" using True 1(2,3) by presburger
    ultimately show ?thesis
      using True by (simp add: sample_offsets.simps[of n i])
  next
    case False
    then show ?thesis by (simp add: sample_offsets.simps[of n i])
  qed
qed

lemma luminosity_in_range:
  assumes "i + 2 < length d"
  shows "\<exists>r. luminosity d i = Num r \<and> 0 \<le> r \<and> r \<le> 255"
proof -
  from rd_in_range[of i d] assms obtain r where r: "rd d i = Num r" "0 \<le> r" "r \<le> 255" by auto
  from rd_in_range[of "i + 1" d] assms obtain g
    where g: "rd d (i + 1) = Num g" "0 \<le> g" "g \<le> 255" by auto
  from rd_in_range[of "i + 2" d] assms obtain b
    where b: "rd d (i + 2) = Num b" "0 \<le> b" "b \<le> 255" by auto
  show ?thesis using r g b by (simp add: luminosity_def)
qed

lemma samples_in_range:
  assumes "4 dvd length d"
  shows "\<forall>x \<in> set (map (luminosity d) (sample_offsets (length d) 0)).
            \<exists>r. x = Num r \<and> 0 \<le> r \<and> r \<le> 255"
proof
  fix x
  assume "x \<in> set (map (luminosity d) (sample_offsets (length d) 0))"
  then obtain j where j: "j \<in> set (sample_offsets (length d) 0)" and x: "x = luminosity d j"
    by auto
  have "j < length d" using j by (rule sample_offsets_lt)
  moreover have "16 dvd j" using j by (rule sample_offsets_dvd) simp
  ultimately have "j + 2 < length d" using assms by presburger
  then show "\<exists>r. x = Num r \<and> 0 \<le> r \<and> r \<le> 255"
    using x luminosity_in_range by simp
qed

lemma estimateBrightness_range:
  assumes "data img \<noteq> []" and "16 dvd length (data img)"
  shows "\<exists>r. estimateBrightness img = Num r \<and> 0 \<le> r \<and> r \<le> 255"
proof -
  let ?xs = "map (luminosity (data img)) (sample_offsets (length (data img)) 0)"
  have "4 dvd length (data img)" using assms(2) by presburger
  from js_sum_bounded[OF samples_in_range[OF this]] obtain s
    where s: "js_sum ?xs = Num s" "0 \<le> s" "s \<le> real (length ?xs) * 255" by blast
  have len: "length ?xs = length (data img) div 16"
    using sample_offsets_length[OF assms(2), of 0] by simp
  have "real (length (data img) div 16) = real (length (data img)) / 16"
    using assms(2) by (simp add: real_of_nat_div)
  then have n: "real (length ?xs) = real (length (data img)) / 16" using len by simp
  have pos: "0 < real (length (data img)) / 16" using assms(1) by simp
  have "s / (real (length (data img)) / 16) \<le> 255"
    using s(3) pos unfolding n by (simp add: pos_divide_le_eq mult.commute)
  moreover have "0 \<le> s / (real (length (data img)) / 16)" using s(2) by simp
  ultimately show ?thesis
    using s(1) assms(1)
    by (simp add: estimateBrightness_def brightness_loop_samples js_add_zero_left)
qed


text \<open>The standard deviation of samples in [0, 255] is in [0, 255].\<close>

lemma foldl_squares:
  "foldl (\<lambda>acc p. js_add acc (js_mul (js_sub p m) (js_sub p m))) a xs =
     js_add a (js_sum (map (\<lambda>p. js_mul (js_sub p m) (js_sub p m)) xs))"
  by (induction xs arbitrary: a) (simp_all add: js_add_zero_right js_add_assoc)

lemma estimateContrast_range:
  assumes "data img \<noteq> []" and "4 dvd length (data img)"
  shows "\<exists>r. estimateContrast img = Inr (Num r) \<and> 0 \<le> r \<and> r \<le> 255"
proof -
  let ?xs = "map (luminosity (data img)) (sample_offsets (length (data img)) 0)"
  have px: "contrast_loop (data img) 0 [] = ?xs" by (simp add: contrast_loop_samples)
  have ne: "?xs \<noteq> []" using assms(1) by (simp add: sample_offsets_empty)
  then obtain p ps where pps: "?xs = p # ps" by (cases ?xs) auto
  have rng: "\<forall>x \<in> set ?xs. \<exists>r. x = Num r \<and> 0 \<le> r \<and> r \<le> 255"
    by (rule samples_in_range[OF assms(2)])
  from js_average_bounded[OF ne rng] obtain m
    where m: "js_average ?xs = Num m" "0 \<le> m" "m \<le> 255" by blast
  have mean: "js_div (foldl js_add p ps) (Num (real (length ?xs))) = Num m"
    using m(1) pps by (simp add: js_average_def foldl_js_add)
  let ?sq = "map (\<lambda>p. js_mul (js_sub p (Num m)) (js_sub p (Num m))) ?xs"
  have sq: "\<forall>x \<in> set ?sq. \<exists>r. x = Num r \<and> 0 \<le> r \<and> r \<le> 255 * 255"
  proof
    fix x assume "x \<in> set ?sq"
    then obtain y where y: "y \<in> set ?xs" and x: "x = js_mul (js_sub y (Num m)) (js_sub y (Num m))"
      by auto
    from rng y obtain r where r: "y = Num r" "0 \<le> r" "r \<le> 255" by blast
    have "\<bar>r - m\<bar> \<le> 255" using r m by simp
    then have "\<bar>r - m\<bar> * \<bar>r - m\<bar> \<le> 255 * 255"
      by (intro mult_mono) simp_all
    then have "(r - m) * (r - m) \<le> 255 * 255" by (simp add: abs_mult_self_eq)
    then show "\<exists>r. x = Num r \<and> 0 \<le> r \<and> r \<le> 255 * 255"
      using x r by simp
  qed
  have "?sq \<noteq> []" using ne by simp
  from js_average_bounded[OF this sq] obtain v
    where v: "js_average ?sq = Num v" "0 \<le> v" "v \<le> 255 * 255" by blast
  have var: "js_div (foldl (\<lambda>acc p. js_add acc (js_mul (js_sub p (Num m)) (js_sub p (Num m))))
                 (Num 0) ?xs) (Num (real (length ?xs))) = Num v"
    using v(1) by (simp add: js_average_def foldl_squares js_add_zero_left)
  have "sqrt v \<le> sqrt (255 * 255)" using v(3) by (simp only: real_sqrt_le_iff)
  then have "sqrt v \<le> 255" by simp
  moreover have "0 \<le> sqrt v" using v(2) by simp
  moreover have "estimateContrast img = Inr (js_sqrt (Num v))"
    unfolding estimateContrast_def px Let_def
    using mean var pps by simp
  ultimately show ?thesis using v(2) by simp
qed


text \<open>
  Every sample point of \<^verbatim>\<open>estimateSharpness\<close> and its right and lower neighbour lie inside
  the buffer, so each gradient is a number, and at least one sample point exists.
\<close>

lemma gradient_numeric:
  assumes "a < length d" and "b < length d" and "c < length d"
  shows "\<exists>g. js_sqrt (js_add (js_mul (js_abs (js_sub (rd d a) (rd d b)))
                                   (js_abs (js_sub (rd d a) (rd d b))))
                           (js_mul (js_abs (js_sub (rd d a) (rd d c)))
                                   (js_abs (js_sub (rd d a) (rd d c))))) = Num g \<and> 0 \<le> g"
proof -
  from rd_in_range[OF assms(1)] obtain x where x: "rd d a = Num x" by blast
  from rd_in_range[OF assms(2)] obtain y where y: "rd d b = Num y" by blast
  from rd_in_range[OF assms(3)] obtain z where z: "rd d c = Num z" by blast
  have "0 \<le> (x - y) * (x - y) + (x - z) * (x - z)"
    by (intro add_nonneg_nonneg zero_le_square)
  then show ?thesis using x y z by (simp add: not_less)
qed

lemma sample_point_in_buffer:
  assumes "valid_image img" and "int i < int (height img) - 4" and "int j < int (width img) - 4"
  shows "(i * width img + j) * 4 < length (data img)"
    and "(i * width img + j + 1) * 4 < length (data img)"
    and "((i + 1) * width img + j) * 4 < length (data img)"
proof -
  have len: "length (data img) = 4 * (height img * width img)"
    using assms(1) by (simp add: valid_image_def mult.commute)
  have "(i + 2) * width img \<le> height img * width img"
    using assms(2) by (intro mult_le_mono1) simp
  moreover have "(i + 1) * width img + j + 1 < (i + 2) * width img"
    using assms(3) by (simp add: algebra_simps)
  ultimately have down: "(i + 1) * width img + j + 1 < height img * width img" by simp
  then show "((i + 1) * width img + j) * 4 < length (data img)" using len by simp
  have "1 \<le> width img" using assms(3) by simp
  then have "i * width img + j + 1 \<le> (i + 1) * width img + j" by (simp add: algebra_simps)
  then show "(i * width img + j + 1) * 4 < length (data img)" using down len by simp
  then show "(i * width img + j) * 4 < length (data img)" by simp
qed

lemma sharpness_cols_numeric:
  assumes "valid_image img" and "int i < int (height img) - 4" and "\<exists>t. tg = Num t \<and> 0 \<le> t"
  shows "\<exists>t' c'. sharpness_cols img i j (tg, c) = (Num t', c') \<and> 0 \<le> t' \<and> c \<le> c'
           \<and> (int j < int (width img) - 4 \<longrightarrow> c < c')"
  using assms
proof (induction img i j "(tg, c)" arbitrary: tg c rule: sharpness_cols.induct)
  case (1 img i j totalGradient count)
  from "1.prems"(3) obtain t where t: "totalGradient = Num t" "0 \<le> t" by blast
  show ?case
  proof (cases "int j < int (width img) - 4")
    case True
    note pt = sample_point_in_buffer[OF "1.prems"(1,2) True]
    let ?g = "js_sqrt (js_add (js_mul (js_abs (js_sub (rd (data img) ((i * width img + j) * 4))
                                      (rd (data img) ((i * width img + j + 1) * 4))))
                                   (js_abs (js_sub (rd (data img) ((i * width img + j) * 4))
                                      (rd (data img) ((i * width img + j + 1) * 4)))))
                           (js_mul (js_abs (js_sub (rd (data img) ((i * width img + j) * 4))
                                      (rd (data img) (((i + 1) * width img + j) * 4))))
                                   (js_abs (js_sub (rd (data img) ((i * width img + j) * 4))
                                      (rd (data img) (((i + 1) * width img + j) * 4))))))"
    from gradient_numeric[OF pt(1) pt(2) pt(3)] obtain g where g: "?g = Num g" and g0: "0 \<le> g"
      by blast
    have step: "sharpness_cols img i j (totalGradient, count) =
                  sharpness_cols img i (j + 4) (js_add totalGradient ?g, count + 1)"
      using True by (simp add: sharpness_cols.simps[of img i j] Let_def)
    have acc: "\<exists>t'. js_add totalGradient ?g = Num t' \<and> 0 \<le> t'"
      using t g g0 by simp
    from "1.hyps"[OF True refl refl refl refl refl "1.prems"(1,2) acc]
    obtain t' c' where
      "sharpness_cols img i (j + 4) (js_add totalGradient ?g, count + 1) = (Num t', c')"
      "0 \<le> t'" "count + 1 \<le> c'"
      by auto
    then show ?thesis using step True by auto
  next
    case False
    then show ?thesis
      using t by (simp add: sharpness_cols.simps[of img i j])
  qed
qed

lemma sharpness_rows_numeric:
  assumes "valid_image img" and "4 < width img" and "0 \<le> t"
  shows "\<exists>t' c'. sharpness_rows img i (Num t, c) = (Num t', c') \<and> 0 \<le> t' \<and> c \<le> c'
           \<and> (int i < int (height img) - 4 \<longrightarrow> c < c')"
  using assms
proof (induction img i "(Num t, c)" arbitrary: t c rule: sharpness_rows.induct)
  case (1 img i)
  show ?case
  proof (cases "int i < int (height img) - 4")
    case True
    have w: "int 0 < int (width img) - 4" using "1.prems"(2) by simp
    have "\<exists>t'. Num t = Num t' \<and> 0 \<le> t'" using "1.prems"(3) by simp
    from sharpness_cols_numeric[OF "1.prems"(1) True this, of 0 c] w
    obtain t1 c1 where cols: "sharpness_cols img i 0 (Num t, c) = (Num t1, c1)"
      and t1: "0 \<le> t1" and c1: "c < c1" by auto
    from "1.hyps"[OF True cols "1.prems"(1,2) t1]
    obtain t' c' where "sharpness_rows img (i + 4) (Num t1, c1) = (Num t', c')" "0 \<le> t'" "c1 \<le> c'"
      by auto
    then show ?thesis
      using True cols c1 by (auto simp: sharpness_rows.simps[of img i])
  next
    case False
    then show ?thesis
      using "1.prems"(3) by (simp add: sharpness_rows.simps[of img i])
  qed
qed

lemma estimateSharpness_range:
  assumes "valid_image img" and "4 < width img" and "4 < height img"
  shows "\<exists>r. estimateSharpness img = Num r \<and> 0 \<le> r \<and> r \<le> 255"
proof -
  have h: "int 0 < int (height img) - 4" using assms(3) by simp
  from sharpness_rows_numeric[OF assms(1,2), of 0 0 0] h
  obtain t c where "sharpness_rows img 0 (Num 0, 0) = (Num t, c)" "0 \<le> t" "0 < c" by auto
  then show ?thesis by (simp add: estimateSharpness_def)
qed


text \<open>
  On a buffer with more than four columns and rows whose pixel count is a multiple of 4,
  the three estimates of a single frame are numbers in [0, 255].
\<close>

lemma large_buffer_metrics_in_range:
  assumes "valid_image img" and "4 < width img" and "4 < height img"
    and "4 dvd width img * height img"
  shows "(\<exists>r. estimateBrightness img = Num r \<and> 0 \<le> r \<and> r \<le> 255)
       \<and> (\<exists>r. estimateContrast img = Inr (Num r) \<and> 0 \<le> r \<and> r \<le> 255)
       \<and> (\<exists>r. estimateSharpness img = Num r \<and> 0 \<le> r \<and> r \<le> 255)"
proof -
  have len: "length (data img) = 4 * (width img * height img)"
    using assms(1) by (simp add: valid_image_def)
  have ne: "data img \<noteq> []" using assms(1) by (rule valid_image_nonempty)
  have d16: "16 dvd length (data img)" using assms(4) len by presburger
  have d4: "4 dvd length (data img)" using len by simp
  show ?thesis
    using estimateBrightness_range[OF ne d16] estimateContrast_range[OF ne d4]
      estimateSharpness_range[OF assms(1,2,3)]
    by blast
qed

end
